theory Spec2Isabelle
  imports Main
begin

section \<open>Exceptions, outcomes and the environment of a call\<close>

text \<open>
  The container of \<^verbatim>\<open>vector.h\<close> is a template over an element type \<^verbatim>\<open>T\<close> whose
  constructors and assignments may throw, and it allocates raw memory, which may throw
  \<^verbatim>\<open>std::bad_alloc\<close>. An exception is a value of type \<open>error\<close>. A call has one of three
  outcomes: it returns a value, it throws (both leave a state behind), or its behaviour is
  undefined in C++ (a read of a slot that holds no object, an access outside the block, a
  violated \<^verbatim>\<open>assert\<close>), after which there is no state to speak of.
\<close>

datatype error = BadAlloc | ElemError

datatype ('r, 's) outcome = Returns 'r 's | Throws error 's | Undefined

text \<open>
  The environment threads what lies outside the container through every call:
  \<^item> \<open>faults\<close> is the schedule of failures. Every operation that may throw (an allocation,
    a constructor or an assignment of \<^verbatim>\<open>T\<close> that is not \<^verbatim>\<open>noexcept\<close>) consumes the head of
    the schedule and throws when it is \<open>True\<close>; the empty schedule never fails. Whatever
    a real element type decides from its own state, the decisions it takes during one run
    form such a schedule.
  \<^item> \<open>next_block\<close> is the supply of fresh block addresses of \<^verbatim>\<open>operator new\<close>.
  \<^item> the counters record how many times each operation of \<^verbatim>\<open>T\<close> was invoked.
  Sizes are natural numbers: \<^verbatim>\<open>size_t\<close> does not wrap before memory is exhausted.
\<close>

record env =
  faults :: "bool list"
  next_block :: nat
  n_construct :: nat
  n_copy :: nat
  n_move :: nat
  n_assign :: nat
  n_destroy :: nat

definition fault :: "env \<Rightarrow> bool \<times> env" where
  "fault e = (case faults e of [] \<Rightarrow> (False, e) | b # bs \<Rightarrow> (b, e\<lparr>faults := bs\<rparr>))"

section \<open>The element type\<close>

text \<open>
  What the container asks of \<^verbatim>\<open>T\<close> at compile time
  (\<^verbatim>\<open>std::is_nothrow_move_constructible_v\<close>, \<^verbatim>\<open>std::is_copy_constructible_v\<close>,
  \<^verbatim>\<open>std::is_nothrow_move_assignable_v\<close>), the state a moved-from object is left in, and
  the value of \<^verbatim>\<open>T()\<close>.
\<close>

record 'a elem_type =
  nothrow_move_constructible :: bool
  copy_constructible :: bool
  nothrow_move_assignable :: bool
  moved_from :: "'a \<Rightarrow> 'a"
  default_value :: 'a

text \<open>\<^verbatim>\<open>T(args...)\<close> for arguments other than a single \<^verbatim>\<open>T\<close>: yields the value \<open>x\<close>.\<close>

definition construct :: "env \<Rightarrow> 'a \<Rightarrow> 'a option \<times> env" where
  "construct e x =
     (let (b, e1) = fault (e\<lparr>n_construct := n_construct e + 1\<rparr>)
      in (if b then None else Some x, e1))"

text \<open>\<^verbatim>\<open>T(const T&)\<close>.\<close>

definition copy_construct :: "env \<Rightarrow> 'a \<Rightarrow> 'a option \<times> env" where
  "copy_construct e x =
     (let (b, e1) = fault (e\<lparr>n_copy := n_copy e + 1\<rparr>)
      in (if b then None else Some x, e1))"

text \<open>
  \<^verbatim>\<open>T(T&&)\<close>: the new object and the state the source is left in. A move constructor that
  is \<^verbatim>\<open>noexcept\<close> consults no schedule. A move that throws leaves its source as it was.
\<close>

definition move_construct :: "'a elem_type \<Rightarrow> env \<Rightarrow> 'a \<Rightarrow> ('a \<times> 'a) option \<times> env" where
  "move_construct T e x =
     (if nothrow_move_constructible T
      then (Some (x, moved_from T x), e\<lparr>n_move := n_move e + 1\<rparr>)
      else (let (b, e1) = fault (e\<lparr>n_move := n_move e + 1\<rparr>)
            in (if b then None else Some (x, moved_from T x), e1)))"

text \<open>\<^verbatim>\<open>T& operator=(const T&)\<close>: the new value of the assigned object.\<close>

definition copy_assignment :: "env \<Rightarrow> 'a \<Rightarrow> 'a option \<times> env" where
  "copy_assignment e x =
     (let (b, e1) = fault (e\<lparr>n_assign := n_assign e + 1\<rparr>)
      in (if b then None else Some x, e1))"

text \<open>\<^verbatim>\<open>T& operator=(T&&)\<close>: the new value of the assigned object and of the source.\<close>

definition move_assignment :: "'a elem_type \<Rightarrow> env \<Rightarrow> 'a \<Rightarrow> ('a \<times> 'a) option \<times> env" where
  "move_assignment T e x =
     (if nothrow_move_assignable T
      then (Some (x, moved_from T x), e\<lparr>n_assign := n_assign e + 1\<rparr>)
      else (let (b, e1) = fault (e\<lparr>n_assign := n_assign e + 1\<rparr>)
            in (if b then None else Some (x, moved_from T x), e1)))"

text \<open>
  The arguments of \<^verbatim>\<open>EmplaceBack(Args&&...)\<close> and \<^verbatim>\<open>Emplace(pos, Args&&...)\<close>: a
  \<^verbatim>\<open>const T&\<close> (the copy constructor runs), a \<^verbatim>\<open>T&&\<close> (the move constructor runs), or
  anything else from which a \<^verbatim>\<open>T\<close> of the given value is built.
\<close>

datatype 'a args = CopyOf 'a | MoveOf 'a | Args 'a

fun value_of :: "'a args \<Rightarrow> 'a" where
  "value_of (CopyOf x) = x"
| "value_of (MoveOf x) = x"
| "value_of (Args x) = x"

text \<open>\<^verbatim>\<open>T(std::forward<Args>(args)...)\<close>.\<close>

fun construct_from :: "'a elem_type \<Rightarrow> env \<Rightarrow> 'a args \<Rightarrow> 'a option \<times> env" where
  "construct_from T e (CopyOf x) = copy_construct e x"
| "construct_from T e (MoveOf x) =
     (case move_construct T e x of
        (None, e1) \<Rightarrow> (None, e1)
      | (Some (y, x'), e1) \<Rightarrow> (Some y, e1))"
| "construct_from T e (Args x) = construct e x"

section \<open>Raw memory\<close>

text \<open>
  A block of raw memory is a list of slots; a slot holds an object (\<open>Some x\<close>) or is
  uninitialised (\<open>None\<close>). \<open>load\<close> reads the object in a slot; there is none to read in an
  uninitialised slot or outside the block. A write into a slot (placement new, or the
  effect of an assignment) is a list update, guarded where it is made by a check that the
  slot lies inside the block.
\<close>

type_synonym 'a slots = "'a option list"

definition load :: "'a slots \<Rightarrow> nat \<Rightarrow> 'a option" where
  "load cs i = (if i < length cs then cs ! i else None)"

text \<open>
  \<^verbatim>\<open>class RawMemory\<close> (lines 12-101): the address of the block (0 is \<^verbatim>\<open>nullptr\<close>), its
  capacity, and, since the block is owned by exactly one \<^verbatim>\<open>RawMemory\<close> (copying is
  deleted), the contents of the block itself.
\<close>

record 'a raw_memory =
  buffer :: nat
  capacity :: nat
  cells :: "'a slots"

text \<open>\<^verbatim>\<open>RawMemory() = default\<close> (line 15, with the member initialisers of lines 99-100).\<close>

definition RawMemory_default :: "'a raw_memory" where
  "RawMemory_default = \<lparr>buffer = 0, capacity = 0, cells = []\<rparr>"

text \<open>
  \<^verbatim>\<open>explicit RawMemory(size_t capacity)\<close> with \<^verbatim>\<open>Allocate\<close> (lines 17-20, 83-85): no
  allocation and a null buffer for \<open>n = 0\<close>; otherwise \<^verbatim>\<open>operator new\<close>, which may throw.
\<close>

definition RawMemory_sized :: "env \<Rightarrow> nat \<Rightarrow> 'a raw_memory option \<times> env" where
  "RawMemory_sized e n =
     (if n = 0 then (Some \<lparr>buffer = 0, capacity = n, cells = []\<rparr>, e)
      else (let (b, e1) = fault e
            in if b then (None, e1)
               else (Some \<lparr>buffer = Suc (next_block e1), capacity = n,
                           cells = replicate n None\<rparr>,
                     e1\<lparr>next_block := Suc (next_block e1)\<rparr>)))"

section \<open>The algorithms of the standard library that the container calls\<close>

text \<open>\<^verbatim>\<open>std::destroy_n(first, n)\<close>: \<open>n\<close> destructor calls; the slots hold no object afterwards.\<close>

fun destroy_n :: "env \<Rightarrow> 'a slots \<Rightarrow> nat \<Rightarrow> nat \<Rightarrow> env \<times> 'a slots" where
  "destroy_n e cs first 0 = (e, cs)"
| "destroy_n e cs first (Suc n) =
     destroy_n (e\<lparr>n_destroy := n_destroy e + 1\<rparr>) (cs[first := None]) (Suc first) n"

text \<open>
  \<^verbatim>\<open>std::uninitialized_copy_n(first, n, result)\<close>: the loop copy-constructs slot by slot and
  stops at the first exception, remembering how far it came; the algorithm then destroys
  what the loop had constructed and rethrows.
\<close>

fun uninit_copy_loop ::
  "env \<Rightarrow> 'a slots \<Rightarrow> nat \<Rightarrow> nat \<Rightarrow> 'a slots \<Rightarrow> nat \<Rightarrow> (unit, env \<times> 'a slots \<times> nat) outcome" where
  "uninit_copy_loop e src first 0 dst cur = Returns () (e, dst, cur)"
| "uninit_copy_loop e src first (Suc n) dst cur =
     (case load src first of
        None \<Rightarrow> Undefined
      | Some x \<Rightarrow>
          if length dst \<le> cur then Undefined
          else (case copy_construct e x of
                  (None, e1) \<Rightarrow> Throws ElemError (e1, dst, cur)
                | (Some y, e1) \<Rightarrow>
                    uninit_copy_loop e1 src (Suc first) n (dst[cur := Some y]) (Suc cur)))"

definition uninitialized_copy_n ::
  "env \<Rightarrow> 'a slots \<Rightarrow> nat \<Rightarrow> nat \<Rightarrow> 'a slots \<Rightarrow> nat \<Rightarrow> (unit, env \<times> 'a slots) outcome" where
  "uninitialized_copy_n e src first n dst result =
     (case uninit_copy_loop e src first n dst result of
        Returns u (e1, dst1, cur) \<Rightarrow> Returns () (e1, dst1)
      | Throws err (e1, dst1, cur) \<Rightarrow> Throws err (destroy_n e1 dst1 result (cur - result))
      | Undefined \<Rightarrow> Undefined)"

text \<open>
  \<^verbatim>\<open>std::uninitialized_move_n(first, n, result)\<close>: as above with the move constructor, which
  also changes the source.
\<close>

fun uninit_move_loop ::
  "'a elem_type \<Rightarrow> env \<Rightarrow> 'a slots \<Rightarrow> nat \<Rightarrow> nat \<Rightarrow> 'a slots \<Rightarrow> nat
     \<Rightarrow> (unit, env \<times> 'a slots \<times> 'a slots \<times> nat) outcome" where
  "uninit_move_loop T e src first 0 dst cur = Returns () (e, src, dst, cur)"
| "uninit_move_loop T e src first (Suc n) dst cur =
     (case load src first of
        None \<Rightarrow> Undefined
      | Some x \<Rightarrow>
          if length dst \<le> cur then Undefined
          else (case move_construct T e x of
                  (None, e1) \<Rightarrow> Throws ElemError (e1, src, dst, cur)
                | (Some (y, x'), e1) \<Rightarrow>
                    uninit_move_loop T e1 (src[first := Some x']) (Suc first) n
                      (dst[cur := Some y]) (Suc cur)))"

definition uninitialized_move_n ::
  "'a elem_type \<Rightarrow> env \<Rightarrow> 'a slots \<Rightarrow> nat \<Rightarrow> nat \<Rightarrow> 'a slots \<Rightarrow> nat
     \<Rightarrow> (unit, env \<times> 'a slots \<times> 'a slots) outcome" where
  "uninitialized_move_n T e src first n dst result =
     (case uninit_move_loop T e src first n dst result of
        Returns u (e1, src1, dst1, cur) \<Rightarrow> Returns () (e1, src1, dst1)
      | Throws err (e1, src1, dst1, cur) \<Rightarrow>
          (case destroy_n e1 dst1 result (cur - result) of
             (e2, dst2) \<Rightarrow> Throws err (e2, src1, dst2))
      | Undefined \<Rightarrow> Undefined)"

text \<open>\<^verbatim>\<open>std::uninitialized_value_construct_n(first, n)\<close>: the same with \<^verbatim>\<open>T()\<close>.\<close>

fun uninit_value_loop ::
  "'a elem_type \<Rightarrow> env \<Rightarrow> 'a slots \<Rightarrow> nat \<Rightarrow> nat \<Rightarrow> (unit, env \<times> 'a slots \<times> nat) outcome" where
  "uninit_value_loop T e dst cur 0 = Returns () (e, dst, cur)"
| "uninit_value_loop T e dst cur (Suc n) =
     (if length dst \<le> cur then Undefined
      else (case construct e (default_value T) of
              (None, e1) \<Rightarrow> Throws ElemError (e1, dst, cur)
            | (Some y, e1) \<Rightarrow> uninit_value_loop T e1 (dst[cur := Some y]) (Suc cur) n))"

definition uninitialized_value_construct_n ::
  "'a elem_type \<Rightarrow> env \<Rightarrow> 'a slots \<Rightarrow> nat \<Rightarrow> nat \<Rightarrow> (unit, env \<times> 'a slots) outcome" where
  "uninitialized_value_construct_n T e dst first n =
     (case uninit_value_loop T e dst first n of
        Returns u (e1, dst1, cur) \<Rightarrow> Returns () (e1, dst1)
      | Throws err (e1, dst1, cur) \<Rightarrow> Throws err (destroy_n e1 dst1 first (cur - first))
      | Undefined \<Rightarrow> Undefined)"

text \<open>
  \<^verbatim>\<open>std::move(first, last, d_first)\<close> inside one block, \<open>n = last - first\<close>: move-assigns
  front to back. Both the source and the target slot must hold an object.
\<close>

fun move_range ::
  "'a elem_type \<Rightarrow> env \<Rightarrow> 'a slots \<Rightarrow> nat \<Rightarrow> nat \<Rightarrow> nat \<Rightarrow> (unit, env \<times> 'a slots) outcome" where
  "move_range T e cs first 0 d_first = Returns () (e, cs)"
| "move_range T e cs first (Suc n) d_first =
     (case load cs first of
        None \<Rightarrow> Undefined
      | Some x \<Rightarrow>
          (case load cs d_first of
             None \<Rightarrow> Undefined
           | Some old \<Rightarrow>
               (case move_assignment T e x of
                  (None, e1) \<Rightarrow> Throws ElemError (e1, cs)
                | (Some (y, x'), e1) \<Rightarrow>
                    move_range T e1 (cs[d_first := Some y, first := Some x'])
                      (Suc first) n (Suc d_first))))"

text \<open>
  \<^verbatim>\<open>std::move_backward(first, last, d_last)\<close> inside one block, \<open>n = last - first\<close>:
  move-assigns back to front, \<^verbatim>\<open>*(--d_last) = std::move(*(--last))\<close>.
\<close>

fun move_backward ::
  "'a elem_type \<Rightarrow> env \<Rightarrow> 'a slots \<Rightarrow> nat \<Rightarrow> nat \<Rightarrow> nat \<Rightarrow> (unit, env \<times> 'a slots) outcome" where
  "move_backward T e cs lst 0 d_last = Returns () (e, cs)"
| "move_backward T e cs lst (Suc n) d_last =
     (if lst = 0 \<or> d_last = 0 then Undefined
      else (case load cs (lst - 1) of
              None \<Rightarrow> Undefined
            | Some x \<Rightarrow>
                (case load cs (d_last - 1) of
                   None \<Rightarrow> Undefined
                 | Some old \<Rightarrow>
                     (case move_assignment T e x of
                        (None, e1) \<Rightarrow> Throws ElemError (e1, cs)
                      | (Some (y, x'), e1) \<Rightarrow>
                          move_backward T e1 (cs[d_last - 1 := Some y, lst - 1 := Some x'])
                            (lst - 1) n (d_last - 1)))))"

text \<open>
  The loop \<^verbatim>\<open>for (i = first; i < last; ++i) data_[i] = rhs[i];\<close> of the copy assignment
  (lines 244-246 and 254-256), \<open>n = last - first\<close>.
\<close>

fun assign_loop ::
  "env \<Rightarrow> 'a slots \<Rightarrow> 'a slots \<Rightarrow> nat \<Rightarrow> nat \<Rightarrow> (unit, env \<times> 'a slots) outcome" where
  "assign_loop e src dst i 0 = Returns () (e, dst)"
| "assign_loop e src dst i (Suc n) =
     (case load src i of
        None \<Rightarrow> Undefined
      | Some x \<Rightarrow>
          (case load dst i of
             None \<Rightarrow> Undefined
           | Some old \<Rightarrow>
               (case copy_assignment e x of
                  (None, e1) \<Rightarrow> Throws ElemError (e1, dst)
                | (Some y, e1) \<Rightarrow> assign_loop e1 src (dst[i := Some y]) (Suc i) n)))"

section \<open>The container\<close>

text \<open>
  \<^verbatim>\<open>class Vector\<close> (lines 105-467): the owned \<^verbatim>\<open>RawMemory data_\<close> and the number
  \<^verbatim>\<open>size_\<close> of constructed elements (lines 418-419). An iterator is a pointer
  (lines 110-111): the address of a block and an offset into it.
\<close>

type_synonym iterator = "nat \<times> nat"

record 'a vector =
  data :: "'a raw_memory"
  size_v :: nat

definition Size :: "'a vector \<Rightarrow> nat" where
  "Size v = size_v v"

definition Capacity :: "'a vector \<Rightarrow> nat" where
  "Capacity v = capacity (data v)"

definition begin_it :: "'a vector \<Rightarrow> iterator" where
  "begin_it v = (buffer (data v), 0)"

definition end_it :: "'a vector \<Rightarrow> iterator" where
  "end_it v = (buffer (data v), size_v v)"

text \<open>
  \<^verbatim>\<open>pos - begin()\<close>: defined for a pointer into the block of this container, at most one
  past its last element.
\<close>

definition index_of :: "'a vector \<Rightarrow> iterator \<Rightarrow> nat option" where
  "index_of v pos =
     (if fst pos = buffer (data v) \<and> snd pos \<le> size_v v then Some (snd pos) else None)"

text \<open>The container with the contents of its block replaced.\<close>

definition set_cells :: "'a vector \<Rightarrow> 'a slots \<Rightarrow> 'a vector" where
  "set_cells v cs = v\<lparr>data := (data v)\<lparr>cells := cs\<rparr>\<rparr>"

text \<open>The live elements, in order: what \<^verbatim>\<open>operator[]\<close> (lines 195-202) reads at 0, ..., size - 1.\<close>

definition elements :: "'a vector \<Rightarrow> 'a option list" where
  "elements v = map (load (cells (data v))) [0..<size_v v]"

text \<open>\<^verbatim>\<open>Vector() = default\<close> (line 137).\<close>

definition Vector_default :: "'a vector" where
  "Vector_default = \<lparr>data = RawMemory_default, size_v = 0\<rparr>"

text \<open>
  \<^verbatim>\<open>explicit Vector(size_t size)\<close> (lines 143-148). When a constructor throws, no object
  comes into being: only the environment is left.
\<close>

definition Vector_sized :: "'a elem_type \<Rightarrow> env \<Rightarrow> nat \<Rightarrow> ('a vector, env) outcome" where
  "Vector_sized T e n =
     (case RawMemory_sized e n of
        (None, e1) \<Rightarrow> Throws BadAlloc e1
      | (Some m, e1) \<Rightarrow>
          (case uninitialized_value_construct_n T e1 (cells m) 0 n of
             Returns u (e2, cs) \<Rightarrow> Returns \<lparr>data = m\<lparr>cells := cs\<rparr>, size_v = n\<rparr> e2
           | Throws err (e2, cs) \<Rightarrow> Throws err e2
           | Undefined \<Rightarrow> Undefined))"

text \<open>\<^verbatim>\<open>Vector(const Vector& other)\<close> (lines 154-159).\<close>

definition Vector_copy :: "env \<Rightarrow> 'a vector \<Rightarrow> ('a vector, env) outcome" where
  "Vector_copy e other =
     (case RawMemory_sized e (size_v other) of
        (None, e1) \<Rightarrow> Throws BadAlloc e1
      | (Some m, e1) \<Rightarrow>
          (case uninitialized_copy_n e1 (cells (data other)) 0 (size_v other) (cells m) 0 of
             Returns u (e2, cs) \<Rightarrow> Returns \<lparr>data = m\<lparr>cells := cs\<rparr>, size_v = size_v other\<rparr> e2
           | Throws err (e2, cs) \<Rightarrow> Throws err e2
           | Undefined \<Rightarrow> Undefined))"

text \<open>
  \<^verbatim>\<open>Vector(Vector&& other) noexcept\<close> (lines 170-173) with \<^verbatim>\<open>RawMemory::Init\<close>
  (lines 92-96): the new object and what is left of \<open>other\<close>.
\<close>

definition Vector_move :: "'a vector \<Rightarrow> 'a vector \<times> 'a vector" where
  "Vector_move other =
     (\<lparr>data = data other, size_v = size_v other\<rparr>,
      \<lparr>data = \<lparr>buffer = 0, capacity = 0, cells = []\<rparr>, size_v = 0\<rparr>)"

text \<open>\<^verbatim>\<open>DestroyN\<close>, \<^verbatim>\<open>CopyConstruct\<close> and \<^verbatim>\<open>Destroy\<close> (lines 179-193).\<close>

definition Destroy :: "env \<Rightarrow> 'a slots \<Rightarrow> nat \<Rightarrow> env \<times> 'a slots" where
  "Destroy e cs i = (e\<lparr>n_destroy := n_destroy e + 1\<rparr>, cs[i := None])"

fun DestroyN :: "env \<Rightarrow> 'a slots \<Rightarrow> nat \<Rightarrow> nat \<Rightarrow> env \<times> 'a slots" where
  "DestroyN e cs i 0 = (e, cs)"
| "DestroyN e cs i (Suc n) = (case Destroy e cs i of (e1, cs1) \<Rightarrow> DestroyN e1 cs1 (Suc i) n)"

definition CopyConstruct :: "env \<Rightarrow> 'a slots \<Rightarrow> nat \<Rightarrow> 'a \<Rightarrow> (unit, env \<times> 'a slots) outcome" where
  "CopyConstruct e cs i elem =
     (if length cs \<le> i then Undefined
      else (case copy_construct e elem of
              (None, e1) \<Rightarrow> Throws ElemError (e1, cs)
            | (Some y, e1) \<Rightarrow> Returns () (e1, cs[i := Some y])))"

text \<open>
  \<^verbatim>\<open>new (p) T(std::forward<Args>(args)...)\<close> at slot \<open>i\<close>, as in lines 355, 359 and 425.
\<close>

definition construct_at :: "'a elem_type \<Rightarrow> env \<Rightarrow> 'a slots \<Rightarrow> nat \<Rightarrow> 'a args
    \<Rightarrow> (unit, env \<times> 'a slots) outcome" where
  "construct_at T e cs i a =
     (if length cs \<le> i then Undefined
      else (case construct_from T e a of
              (None, e1) \<Rightarrow> Throws ElemError (e1, cs)
            | (Some y, e1) \<Rightarrow> Returns () (e1, cs[i := Some y])))"

text \<open>
  \<^verbatim>\<open>SafeMove(from, size, to)\<close> (lines 459-466): \<open>n\<close> elements from offset \<open>first\<close> of the block
  \<open>src\<close> to offset \<open>result\<close> of the block \<open>dst\<close>, by move or by copy as the traits of \<^verbatim>\<open>T\<close>
  decide, then the destruction of the originals. The state is both blocks.
\<close>

definition SafeMove :: "'a elem_type \<Rightarrow> env \<Rightarrow> 'a slots \<Rightarrow> nat \<Rightarrow> nat \<Rightarrow> 'a slots \<Rightarrow> nat
    \<Rightarrow> (unit, env \<times> 'a slots \<times> 'a slots) outcome" where
  "SafeMove T e src first n dst result =
     (if nothrow_move_constructible T \<or> \<not> copy_constructible T
      then (case uninitialized_move_n T e src first n dst result of
              Returns u (e1, src1, dst1) \<Rightarrow>
                (case destroy_n e1 src1 first n of (e2, src2) \<Rightarrow> Returns () (e2, src2, dst1))
            | Throws err s \<Rightarrow> Throws err s
            | Undefined \<Rightarrow> Undefined)
      else (case uninitialized_copy_n e src first n dst result of
              Returns u (e1, dst1) \<Rightarrow>
                (case destroy_n e1 src first n of (e2, src2) \<Rightarrow> Returns () (e2, src2, dst1))
            | Throws err (e1, dst1) \<Rightarrow> Throws err (e1, src, dst1)
            | Undefined \<Rightarrow> Undefined))"

text \<open>
  \<^verbatim>\<open>Reserve\<close> (lines 207-218). After \<^verbatim>\<open>data_.Swap(new_data)\<close> the old block belongs to the
  local \<^verbatim>\<open>new_data\<close>, which releases it; when \<^verbatim>\<open>SafeMove\<close> throws, the new block is released
  and the container keeps its block, in the state \<^verbatim>\<open>SafeMove\<close> left it in.
\<close>

definition Reserve :: "'a elem_type \<Rightarrow> env \<Rightarrow> 'a vector \<Rightarrow> nat \<Rightarrow> (unit, env \<times> 'a vector) outcome" where
  "Reserve T e v new_capacity =
     (if new_capacity \<le> capacity (data v) then Returns () (e, v)
      else (case RawMemory_sized e new_capacity of
              (None, e1) \<Rightarrow> Throws BadAlloc (e1, v)
            | (Some new_data, e1) \<Rightarrow>
                (case SafeMove T e1 (cells (data v)) 0 (size_v v) (cells new_data) 0 of
                   Returns u (e2, src, dst) \<Rightarrow>
                     Returns () (e2, v\<lparr>data := new_data\<lparr>cells := dst\<rparr>\<rparr>)
                 | Throws err (e2, src, dst) \<Rightarrow> Throws err (e2, set_cells v src)
                 | Undefined \<Rightarrow> Undefined)))"

text \<open>\<^verbatim>\<open>~Vector()\<close> (lines 222-224): the elements are destroyed, the block is released.\<close>

definition Vector_destroy :: "env \<Rightarrow> 'a vector \<Rightarrow> env" where
  "Vector_destroy e v = fst (DestroyN e (cells (data v)) 0 (size_v v))"

text \<open>\<^verbatim>\<open>Swap\<close> (lines 228-231, with \<^verbatim>\<open>RawMemory::Swap\<close>, lines 45-48).\<close>

definition Swap :: "'a vector \<Rightarrow> 'a vector \<Rightarrow> 'a vector \<times> 'a vector" where
  "Swap v other =
     (\<lparr>data = data other, size_v = size_v other\<rparr>, \<lparr>data = data v, size_v = size_v v\<rparr>)"

text \<open>
  \<^verbatim>\<open>Resize\<close> (lines 284-292). \<^verbatim>\<open>size_ = new_size\<close> is reached only when nothing threw.
\<close>

definition Resize :: "'a elem_type \<Rightarrow> env \<Rightarrow> 'a vector \<Rightarrow> nat \<Rightarrow> (unit, env \<times> 'a vector) outcome" where
  "Resize T e v new_size =
     (if new_size < size_v v
      then (case destroy_n e (cells (data v)) new_size (size_v v - new_size) of
              (e1, cs) \<Rightarrow> Returns () (e1, (set_cells v cs)\<lparr>size_v := new_size\<rparr>))
      else if new_size > size_v v
      then (case Reserve T e v new_size of
              Returns u (e1, v1) \<Rightarrow>
                (case uninitialized_value_construct_n T e1 (cells (data v1)) (size_v v1)
                        (new_size - size_v v1) of
                   Returns u' (e2, cs) \<Rightarrow> Returns () (e2, (set_cells v1 cs)\<lparr>size_v := new_size\<rparr>)
                 | Throws err (e2, cs) \<Rightarrow> Throws err (e2, set_cells v1 cs)
                 | Undefined \<Rightarrow> Undefined)
            | Throws err s \<Rightarrow> Throws err s
            | Undefined \<Rightarrow> Undefined)
      else Returns () (e, v\<lparr>size_v := new_size\<rparr>))"

text \<open>\<^verbatim>\<open>void PushBack(const T& value)\<close> (lines 300-310).\<close>

definition PushBack :: "'a elem_type \<Rightarrow> env \<Rightarrow> 'a vector \<Rightarrow> 'a \<Rightarrow> (unit, env \<times> 'a vector) outcome" where
  "PushBack T e v val =
     (if size_v v = Capacity v
      then (case RawMemory_sized e (if size_v v = 0 then 1 else size_v v * 2) of
              (None, e1) \<Rightarrow> Throws BadAlloc (e1, v)
            | (Some new_data, e1) \<Rightarrow>
                (case CopyConstruct e1 (cells new_data) (size_v v) val of
                   Returns u (e2, nd) \<Rightarrow>
                     (case SafeMove T e2 (cells (data v)) 0 (size_v v) nd 0 of
                        Returns u' (e3, src, dst) \<Rightarrow>
                          Returns () (e3, \<lparr>data = new_data\<lparr>cells := dst\<rparr>, size_v = size_v v + 1\<rparr>)
                      | Throws err (e3, src, dst) \<Rightarrow> Throws err (e3, set_cells v src)
                      | Undefined \<Rightarrow> Undefined)
                 | Throws err (e2, nd) \<Rightarrow> Throws err (e2, v)
                 | Undefined \<Rightarrow> Undefined))
      else (case CopyConstruct e (cells (data v)) (size_v v) val of
              Returns u (e1, cs) \<Rightarrow> Returns () (e1, (set_cells v cs)\<lparr>size_v := size_v v + 1\<rparr>)
            | Throws err (e1, cs) \<Rightarrow> Throws err (e1, v)
            | Undefined \<Rightarrow> Undefined))"

text \<open>
  \<^verbatim>\<open>void PushBack(T&& value)\<close> (lines 312-332). In the copying branch a move constructor
  that throws is caught and the value is copy-constructed instead (lines 319-323).
\<close>

definition PushBack_rv :: "'a elem_type \<Rightarrow> env \<Rightarrow> 'a vector \<Rightarrow> 'a \<Rightarrow> (unit, env \<times> 'a vector) outcome" where
  "PushBack_rv T e v val =
     (if size_v v = Capacity v
      then (case RawMemory_sized e (if size_v v = 0 then 1 else size_v v * 2) of
              (None, e1) \<Rightarrow> Throws BadAlloc (e1, v)
            | (Some new_data, e1) \<Rightarrow>
                if nothrow_move_constructible T \<or> \<not> copy_constructible T
                then (case construct_at T e1 (cells new_data) (size_v v) (MoveOf val) of
                        Returns u (e2, nd) \<Rightarrow>
                          (case uninitialized_move_n T e2 (cells (data v)) 0 (size_v v) nd 0 of
                             Returns u' (e3, src, dst) \<Rightarrow>
                               (case destroy_n e3 src 0 (size_v v) of
                                  (e4, src') \<Rightarrow>
                                    Returns () (e4, \<lparr>data = new_data\<lparr>cells := dst\<rparr>,
                                                     size_v = size_v v + 1\<rparr>))
                           | Throws err (e3, src, dst) \<Rightarrow> Throws err (e3, set_cells v src)
                           | Undefined \<Rightarrow> Undefined)
                      | Throws err (e2, nd) \<Rightarrow> Throws err (e2, v)
                      | Undefined \<Rightarrow> Undefined)
                else (case (case construct_at T e1 (cells new_data) (size_v v) (MoveOf val) of
                              Returns u s \<Rightarrow> Returns u s
                            | Throws err (e2, nd) \<Rightarrow> CopyConstruct e2 nd (size_v v) val
                            | Undefined \<Rightarrow> Undefined) of
                        Returns u (e2, nd) \<Rightarrow>
                          (case uninitialized_copy_n e2 (cells (data v)) 0 (size_v v) nd 0 of
                             Returns u' (e3, dst) \<Rightarrow>
                               (case destroy_n e3 (cells (data v)) 0 (size_v v) of
                                  (e4, src') \<Rightarrow>
                                    Returns () (e4, \<lparr>data = new_data\<lparr>cells := dst\<rparr>,
                                                     size_v = size_v v + 1\<rparr>))
                           | Throws err (e3, dst) \<Rightarrow> Throws err (e3, v)
                           | Undefined \<Rightarrow> Undefined)
                      | Throws err (e2, nd) \<Rightarrow> Throws err (e2, v)
                      | Undefined \<Rightarrow> Undefined))
      else (case construct_at T e (cells (data v)) (size_v v) (MoveOf val) of
              Returns u (e1, cs) \<Rightarrow> Returns () (e1, (set_cells v cs)\<lparr>size_v := size_v v + 1\<rparr>)
            | Throws err (e1, cs) \<Rightarrow> Throws err (e1, v)
            | Undefined \<Rightarrow> Undefined))"

text \<open>\<^verbatim>\<open>PopBack\<close> (lines 337-341); on an empty container the behaviour is undefined.\<close>

definition PopBack :: "env \<Rightarrow> 'a vector \<Rightarrow> (unit, env \<times> 'a vector) outcome" where
  "PopBack e v =
     (if size_v v = 0 then Undefined
      else (case Destroy e (cells (data v)) (size_v v - 1) of
              (e1, cs) \<Rightarrow> Returns () (e1, (set_cells v cs)\<lparr>size_v := size_v v - 1\<rparr>)))"

text \<open>
  \<^verbatim>\<open>T& EmplaceBack(Args&&... args)\<close> (lines 352-363). The reference it returns is the
  address of \<^verbatim>\<open>data_[size_ - 1]\<close> after the increment.
\<close>

definition EmplaceBack :: "'a elem_type \<Rightarrow> env \<Rightarrow> 'a vector \<Rightarrow> 'a args
    \<Rightarrow> (iterator, env \<times> 'a vector) outcome" where
  "EmplaceBack T e v a =
     (if size_v v = Capacity v
      then (case RawMemory_sized e (if size_v v = 0 then 1 else size_v v * 2) of
              (None, e1) \<Rightarrow> Throws BadAlloc (e1, v)
            | (Some new_data, e1) \<Rightarrow>
                (case construct_at T e1 (cells new_data) (size_v v) a of
                   Returns u (e2, nd) \<Rightarrow>
                     (case SafeMove T e2 (cells (data v)) 0 (size_v v) nd 0 of
                        Returns u' (e3, src, dst) \<Rightarrow>
                          Returns (buffer new_data, size_v v + 1 - 1)
                            (e3, \<lparr>data = new_data\<lparr>cells := dst\<rparr>, size_v = size_v v + 1\<rparr>)
                      | Throws err (e3, src, dst) \<Rightarrow> Throws err (e3, set_cells v src)
                      | Undefined \<Rightarrow> Undefined)
                 | Throws err (e2, nd) \<Rightarrow> Throws err (e2, v)
                 | Undefined \<Rightarrow> Undefined))
      else (case construct_at T e (cells (data v)) (size_v v) a of
              Returns u (e1, cs) \<Rightarrow>
                Returns (buffer (data v), size_v v + 1 - 1)
                  (e1, (set_cells v cs)\<lparr>size_v := size_v v + 1\<rparr>)
            | Throws err (e1, cs) \<Rightarrow> Throws err (e1, v)
            | Undefined \<Rightarrow> Undefined))"

text \<open>
  \<^verbatim>\<open>EmplaceWithReallocate\<close> (lines 421-443). The second \<^verbatim>\<open>SafeMove\<close> works on the old block
  as the first one left it; each \<^verbatim>\<open>catch\<close> destroys what the source names and rethrows.
\<close>

definition EmplaceWithReallocate :: "'a elem_type \<Rightarrow> env \<Rightarrow> 'a vector \<Rightarrow> iterator \<Rightarrow> 'a args
    \<Rightarrow> (iterator, env \<times> 'a vector) outcome" where
  "EmplaceWithReallocate T e v pos a =
     (case index_of v pos of
        None \<Rightarrow> Undefined
      | Some index \<Rightarrow>
          (case RawMemory_sized e (if size_v v = 0 then 1 else size_v v * 2) of
             (None, e1) \<Rightarrow> Throws BadAlloc (e1, v)
           | (Some new_data, e1) \<Rightarrow>
               (case construct_at T e1 (cells new_data) index a of
                  Returns u (e2, nd) \<Rightarrow>
                    (case SafeMove T e2 (cells (data v)) 0 index nd 0 of
                       Returns u' (e3, src, dst) \<Rightarrow>
                         (case SafeMove T e3 src index (size_v v - index) dst (index + 1) of
                            Returns u'' (e4, src', dst') \<Rightarrow>
                              Returns (buffer new_data, index)
                                (e4, \<lparr>data = new_data\<lparr>cells := dst'\<rparr>, size_v = size_v v + 1\<rparr>)
                          | Throws err (e4, src', dst') \<Rightarrow>
                              (case destroy_n e4 dst' 0 (index + 1) of
                                 (e5, dst'') \<Rightarrow> Throws err (e5, set_cells v src'))
                          | Undefined \<Rightarrow> Undefined)
                     | Throws err (e3, src, dst) \<Rightarrow>
                         (case Destroy e3 dst index of
                            (e4, dst') \<Rightarrow> Throws err (e4, set_cells v src))
                     | Undefined \<Rightarrow> Undefined)
                | Throws err (e2, nd) \<Rightarrow> Throws err (e2, v)
                | Undefined \<Rightarrow> Undefined)))"

text \<open>The destructor of the local \<^verbatim>\<open>T temp\<close> of line 448, run on every way out of its scope.\<close>

definition destroy_temp :: "env \<Rightarrow> env" where
  "destroy_temp e = e\<lparr>n_destroy := n_destroy e + 1\<rparr>"

text \<open>
  \<^verbatim>\<open>EmplaceWithoutReallocate\<close> (lines 445-457): the temporary, the move of the last element
  into the raw slot at \<^verbatim>\<open>end()\<close>, \<^verbatim>\<open>std::move_backward\<close> of the elements from \<open>index\<close> to the
  last but one, and the move assignment of the temporary into slot \<open>index\<close>.
\<close>

definition EmplaceWithoutReallocate :: "'a elem_type \<Rightarrow> env \<Rightarrow> 'a vector \<Rightarrow> iterator \<Rightarrow> 'a args
    \<Rightarrow> (iterator, env \<times> 'a vector) outcome" where
  "EmplaceWithoutReallocate T e v pos a =
     (case index_of v pos of
        None \<Rightarrow> Undefined
      | Some index \<Rightarrow>
          (case construct_from T e a of
             (None, e1) \<Rightarrow> Throws ElemError (e1, v)
           | (Some temp, e1) \<Rightarrow>
               if size_v v = 0 \<or> size_v v - 1 < index \<or> length (cells (data v)) \<le> size_v v
               then Undefined
               else (case load (cells (data v)) (size_v v - 1) of
                       None \<Rightarrow> Undefined
                     | Some x \<Rightarrow>
                         (case move_construct T e1 x of
                            (None, e2) \<Rightarrow> Throws ElemError (destroy_temp e2, v)
                          | (Some (y, x'), e2) \<Rightarrow>
                              (case move_backward T e2
                                      ((cells (data v))[size_v v - 1 := Some x', size_v v := Some y])
                                      (size_v v - 1) (size_v v - 1 - index) (size_v v) of
                                 Returns u (e3, cs) \<Rightarrow>
                                   (case load cs index of
                                      None \<Rightarrow> Undefined
                                    | Some old \<Rightarrow>
                                        (case move_assignment T e3 temp of
                                           (None, e4) \<Rightarrow>
                                             Throws ElemError (destroy_temp e4, set_cells v cs)
                                         | (Some (y', temp'), e4) \<Rightarrow>
                                             Returns (buffer (data v), index)
                                               (destroy_temp e4,
                                                (set_cells v (cs[index := Some y']))
                                                  \<lparr>size_v := size_v v + 1\<rparr>)))
                               | Throws err (e3, cs) \<Rightarrow> Throws err (destroy_temp e3, set_cells v cs)
                               | Undefined \<Rightarrow> Undefined)))))"

text \<open>\<^verbatim>\<open>Emplace\<close> (lines 365-377).\<close>

definition Emplace :: "'a elem_type \<Rightarrow> env \<Rightarrow> 'a vector \<Rightarrow> iterator \<Rightarrow> 'a args
    \<Rightarrow> (iterator, env \<times> 'a vector) outcome" where
  "Emplace T e v pos a =
     (if pos = end_it v then EmplaceBack T e v a
      else if size_v v = Capacity v then EmplaceWithReallocate T e v pos a
      else EmplaceWithoutReallocate T e v pos a)"

text \<open>\<^verbatim>\<open>Insert(const_iterator, const T&)\<close> and \<^verbatim>\<open>Insert(const_iterator, T&&)\<close> (lines 399-405).\<close>

definition Insert :: "'a elem_type \<Rightarrow> env \<Rightarrow> 'a vector \<Rightarrow> iterator \<Rightarrow> 'a
    \<Rightarrow> (iterator, env \<times> 'a vector) outcome" where
  "Insert T e v pos val = Emplace T e v pos (CopyOf val)"

definition Insert_rv :: "'a elem_type \<Rightarrow> env \<Rightarrow> 'a vector \<Rightarrow> iterator \<Rightarrow> 'a
    \<Rightarrow> (iterator, env \<times> 'a vector) outcome" where
  "Insert_rv T e v pos val = Emplace T e v pos (MoveOf val)"

text \<open>
  \<^verbatim>\<open>Erase\<close> (lines 407-415). The \<^verbatim>\<open>assert\<close> of line 409 is the precondition: outside it the
  behaviour is undefined.
\<close>

definition Erase :: "'a elem_type \<Rightarrow> env \<Rightarrow> 'a vector \<Rightarrow> iterator
    \<Rightarrow> (iterator, env \<times> 'a vector) outcome" where
  "Erase T e v pos =
     (case index_of v pos of
        None \<Rightarrow> Undefined
      | Some index \<Rightarrow>
          if size_v v \<le> index then Undefined
          else (case move_range T e (cells (data v)) (index + 1) (size_v v - (index + 1)) index of
                  Returns u (e1, cs) \<Rightarrow>
                    (case Destroy e1 cs (size_v v - 1) of
                       (e2, cs') \<Rightarrow>
                         Returns (buffer (data v), index)
                           (e2, (set_cells v cs')\<lparr>size_v := size_v v - 1\<rparr>))
                | Throws err (e1, cs) \<Rightarrow> Throws err (e1, set_cells v cs)
                | Undefined \<Rightarrow> Undefined))"

text \<open>
  The body of \<^verbatim>\<open>Vector& operator=(const Vector& rhs)\<close> under \<^verbatim>\<open>this != &rhs\<close>
  (lines 237-260). The local \<^verbatim>\<open>large\<close> is destroyed at the end of its block, holding what
  the container held before the swap. In the branch of lines 242-250 the source range of
  \<^verbatim>\<open>std::uninitialized_copy_n\<close> starts at \<^verbatim>\<open>rhs.data_.GetAddress() + rhs.size_ - size_\<close>.
\<close>

definition copy_assign_body :: "env \<Rightarrow> 'a vector \<Rightarrow> 'a vector \<Rightarrow> (unit, env \<times> 'a vector) outcome" where
  "copy_assign_body e v rhs =
     (if size_v rhs > capacity (data v)
      then (case Vector_copy e rhs of
              Returns large e1 \<Rightarrow>
                (case Swap v large of
                   (v', large') \<Rightarrow> Returns () (Vector_destroy e1 large', v'))
            | Throws err e1 \<Rightarrow> Throws err (e1, v)
            | Undefined \<Rightarrow> Undefined)
      else if size_v rhs > size_v v
      then (case assign_loop e (cells (data rhs)) (cells (data v)) 0 (size_v v) of
              Returns u (e1, cs) \<Rightarrow>
                (case uninitialized_copy_n e1 (cells (data rhs)) (size_v rhs - size_v v)
                        (size_v rhs - size_v v) cs (size_v v) of
                   Returns u' (e2, cs') \<Rightarrow>
                     Returns () (e2, (set_cells v cs')\<lparr>size_v := size_v rhs\<rparr>)
                 | Throws err (e2, cs') \<Rightarrow> Throws err (e2, set_cells v cs')
                 | Undefined \<Rightarrow> Undefined)
            | Throws err (e1, cs) \<Rightarrow> Throws err (e1, set_cells v cs)
            | Undefined \<Rightarrow> Undefined)
      else (case assign_loop e (cells (data rhs)) (cells (data v)) 0 (size_v rhs) of
              Returns u (e1, cs) \<Rightarrow>
                (case destroy_n e1 cs (size_v rhs) (size_v v - size_v rhs) of
                   (e2, cs') \<Rightarrow> Returns () (e2, (set_cells v cs')\<lparr>size_v := size_v rhs\<rparr>))
            | Throws err (e1, cs) \<Rightarrow> Throws err (e1, set_cells v cs)
            | Undefined \<Rightarrow> Undefined))"

text \<open>
  The body of \<^verbatim>\<open>Vector& operator=(Vector&& rhs) noexcept\<close> under \<^verbatim>\<open>this != &rhs\<close>
  (lines 270-272, with \<^verbatim>\<open>RawMemory::Init\<close>, lines 92-96): this object and what is left of
  \<open>rhs\<close>. The block this object held is released.
\<close>

definition move_assign_body :: "'a vector \<Rightarrow> 'a vector \<Rightarrow> 'a vector \<times> 'a vector" where
  "move_assign_body v rhs =
     (\<lparr>data = data rhs, size_v = size_v rhs\<rparr>,
      \<lparr>data = \<lparr>buffer = 0, capacity = 0, cells = []\<rparr>, size_v = 0\<rparr>)"

section \<open>Objects and their identity\<close>

text \<open>
  The assignment operators compare \<^verbatim>\<open>this\<close> with \<^verbatim>\<open>&rhs\<close>, so the objects of a program
  live in a store, at addresses. An operation on an address that holds no object has no
  defined behaviour.
\<close>

type_synonym 'a store = "nat \<Rightarrow> 'a vector option"

text \<open>\<^verbatim>\<open>Vector& operator=(const Vector& rhs)\<close> (lines 235-263).\<close>

definition copy_assign :: "env \<times> 'a store \<Rightarrow> nat \<Rightarrow> nat \<Rightarrow> (unit, env \<times> 'a store) outcome" where
  "copy_assign s self rhs =
     (case s of (e, st) \<Rightarrow>
        (case (st self, st rhs) of
           (Some v, Some r) \<Rightarrow>
             if self \<noteq> rhs
             then (case copy_assign_body e v r of
                     Returns u (e1, v1) \<Rightarrow> Returns () (e1, st(self \<mapsto> v1))
                   | Throws err (e1, v1) \<Rightarrow> Throws err (e1, st(self \<mapsto> v1))
                   | Undefined \<Rightarrow> Undefined)
             else Returns () (e, st)
         | _ \<Rightarrow> Undefined))"

text \<open>\<^verbatim>\<open>Vector& operator=(Vector&& rhs) noexcept\<close> (lines 266-274).\<close>

definition move_assign :: "env \<times> 'a store \<Rightarrow> nat \<Rightarrow> nat \<Rightarrow> (unit, env \<times> 'a store) outcome" where
  "move_assign s self rhs =
     (case s of (e, st) \<Rightarrow>
        (case (st self, st rhs) of
           (Some v, Some r) \<Rightarrow>
             if self = rhs then Returns () (e, st)
             else (case move_assign_body v r of
                     (v', r') \<Rightarrow> Returns () (e, st(self \<mapsto> v', rhs \<mapsto> r')))
         | _ \<Rightarrow> Undefined))"

text \<open>
  \<^verbatim>\<open>Vector(Vector&& other) noexcept\<close> for a new object at the address \<open>self\<close>, which holds
  no object before.
\<close>

definition move_construct_at :: "env \<times> 'a store \<Rightarrow> nat \<Rightarrow> nat \<Rightarrow> (unit, env \<times> 'a store) outcome" where
  "move_construct_at s self other =
     (case s of (e, st) \<Rightarrow>
        (case (st self, st other) of
           (None, Some r) \<Rightarrow>
             (case Vector_move r of
                (v', r') \<Rightarrow> Returns () (e, st(self \<mapsto> v', other \<mapsto> r')))
         | _ \<Rightarrow> Undefined))"

section \<open>Programs over the public interface\<close>

text \<open>
  One call of the public interface on the objects of the store. The first address is the
  object the call is made on.
\<close>

datatype 'a op =
    NewDefault nat
  | NewSized nat nat
  | NewCopy nat nat
  | NewMove nat nat
  | CallReserve nat nat
  | CallResize nat nat
  | CallPushBack nat 'a
  | CallPushBack_rv nat 'a
  | CallPopBack nat
  | CallEmplaceBack nat "'a args"
  | CallEmplace nat iterator "'a args"
  | CallInsert nat iterator 'a
  | CallInsert_rv nat iterator 'a
  | CallErase nat iterator
  | CallCopyAssign nat nat
  | CallMoveAssign nat nat
  | CallSwap nat nat

text \<open>A constructor gives the address an object when it returns, and nothing when it throws.\<close>

definition new_object :: "env \<times> 'a store \<Rightarrow> nat \<Rightarrow> (env \<Rightarrow> ('a vector, env) outcome)
    \<Rightarrow> (unit, env \<times> 'a store) outcome" where
  "new_object s self ctor =
     (case s of (e, st) \<Rightarrow>
        (case st self of
           Some v \<Rightarrow> Undefined
         | None \<Rightarrow>
             (case ctor e of
                Returns v e1 \<Rightarrow> Returns () (e1, st(self \<mapsto> v))
              | Throws err e1 \<Rightarrow> Throws err (e1, st)
              | Undefined \<Rightarrow> Undefined)))"

text \<open>A member function called on the object at \<open>self\<close>; the value it returns is dropped.\<close>

definition on_object :: "env \<times> 'a store \<Rightarrow> nat
    \<Rightarrow> (env \<Rightarrow> 'a vector \<Rightarrow> ('r, env \<times> 'a vector) outcome) \<Rightarrow> (unit, env \<times> 'a store) outcome" where
  "on_object s self f =
     (case s of (e, st) \<Rightarrow>
        (case st self of
           None \<Rightarrow> Undefined
         | Some v \<Rightarrow>
             (case f e v of
                Returns r (e1, v1) \<Rightarrow> Returns () (e1, st(self \<mapsto> v1))
              | Throws err (e1, v1) \<Rightarrow> Throws err (e1, st(self \<mapsto> v1))
              | Undefined \<Rightarrow> Undefined)))"

definition swap_objects :: "env \<times> 'a store \<Rightarrow> nat \<Rightarrow> nat \<Rightarrow> (unit, env \<times> 'a store) outcome" where
  "swap_objects s self other =
     (case s of (e, st) \<Rightarrow>
        (case (st self, st other) of
           (Some v, Some r) \<Rightarrow>
             (case Swap v r of (v', r') \<Rightarrow> Returns () (e, st(self \<mapsto> v', other \<mapsto> r')))
         | _ \<Rightarrow> Undefined))"

fun exec :: "'a elem_type \<Rightarrow> 'a op \<Rightarrow> env \<times> 'a store \<Rightarrow> (unit, env \<times> 'a store) outcome" where
  "exec T (NewDefault p) s = new_object s p (\<lambda>e. Returns Vector_default e)"
| "exec T (NewSized p n) s = new_object s p (\<lambda>e. Vector_sized T e n)"
| "exec T (NewCopy p q) s =
     (case snd s q of None \<Rightarrow> Undefined | Some r \<Rightarrow> new_object s p (\<lambda>e. Vector_copy e r))"
| "exec T (NewMove p q) s = move_construct_at s p q"
| "exec T (CallReserve p n) s = on_object s p (\<lambda>e v. Reserve T e v n)"
| "exec T (CallResize p n) s = on_object s p (\<lambda>e v. Resize T e v n)"
| "exec T (CallPushBack p x) s = on_object s p (\<lambda>e v. PushBack T e v x)"
| "exec T (CallPushBack_rv p x) s = on_object s p (\<lambda>e v. PushBack_rv T e v x)"
| "exec T (CallPopBack p) s = on_object s p PopBack"
| "exec T (CallEmplaceBack p a) s = on_object s p (\<lambda>e v. EmplaceBack T e v a)"
| "exec T (CallEmplace p pos a) s = on_object s p (\<lambda>e v. Emplace T e v pos a)"
| "exec T (CallInsert p pos x) s = on_object s p (\<lambda>e v. Insert T e v pos x)"
| "exec T (CallInsert_rv p pos x) s = on_object s p (\<lambda>e v. Insert_rv T e v pos x)"
| "exec T (CallErase p pos) s = on_object s p (\<lambda>e v. Erase T e v pos)"
| "exec T (CallCopyAssign p q) s = copy_assign s p q"
| "exec T (CallMoveAssign p q) s = move_assign s p q"
| "exec T (CallSwap p q) s = swap_objects s p q"

text \<open>
  A program is a list of calls. The caller catches what a call throws and goes on with the
  state the call left; after undefined behaviour there is nothing to go on with.
\<close>

fun run :: "'a elem_type \<Rightarrow> 'a op list \<Rightarrow> env \<times> 'a store \<Rightarrow> (env \<times> 'a store) option" where
  "run T [] s = Some s"
| "run T (c # cs) s =
     (case exec T c s of
        Returns u s' \<Rightarrow> run T cs s'
      | Throws err s' \<Rightarrow> run T cs s'
      | Undefined \<Rightarrow> None)"

text \<open>
  \<open>m\<close> calls of \<^verbatim>\<open>PushBack\<close> in sequence, one per value of the list, recording the capacity
  each time a call has changed it (the growth points).
\<close>

fun PushBack_seq :: "'a elem_type \<Rightarrow> env \<Rightarrow> 'a vector \<Rightarrow> 'a list
    \<Rightarrow> (nat list, env \<times> 'a vector) outcome" where
  "PushBack_seq T e v [] = Returns [] (e, v)"
| "PushBack_seq T e v (x # xs) =
     (case PushBack T e v x of
        Returns u (e1, v1) \<Rightarrow>
          (case PushBack_seq T e1 v1 xs of
             Returns caps s \<Rightarrow>
               Returns ((if Capacity v1 \<noteq> Capacity v then [Capacity v1] else []) @ caps) s
           | Throws err s \<Rightarrow> Throws err s
           | Undefined \<Rightarrow> Undefined)
      | Throws err s \<Rightarrow> Throws err s
      | Undefined \<Rightarrow> Undefined)"

text \<open>An environment in which nothing fails, and two element types to run examples with.\<close>

definition env0 :: env where
  "env0 = \<lparr>faults = [], next_block = 0, n_construct = 0, n_copy = 0, n_move = 0,
           n_assign = 0, n_destroy = 0\<rparr>"

text \<open>An element type like \<^verbatim>\<open>int\<close>: nothing throws, a move leaves the source as it was.\<close>

definition int_type :: "int elem_type" where
  "int_type = \<lparr>nothrow_move_constructible = True, copy_constructible = True,
               nothrow_move_assignable = True, moved_from = (\<lambda>x. x), default_value = 0\<rparr>"

text \<open>
  An element type like a string whose copy and move constructors may both throw: a
  moved-from string is empty.
\<close>

definition throwing_string_type :: "string elem_type" where
  "throwing_string_type = \<lparr>nothrow_move_constructible = False, copy_constructible = True,
               nothrow_move_assignable = False, moved_from = (\<lambda>x. []), default_value = []\<rparr>"

text \<open>
  A container as the operations leave it when nothing went wrong: a block at address \<open>b\<close>
  of capacity \<open>c\<close> whose first slots hold the values \<open>xs\<close>, the others being raw.
\<close>

definition vec_of :: "nat \<Rightarrow> nat \<Rightarrow> 'a list \<Rightarrow> 'a vector" where
  "vec_of b c xs =
     \<lparr>data = \<lparr>buffer = b, capacity = c,
              cells = map Some xs @ replicate (c - length xs) None\<rparr>,
      size_v = length xs\<rparr>"

text \<open>
  The representation invariant of section 3 of the specification, as far as reads depend
  on it: the block has as many slots as its capacity says, the size does not exceed the
  capacity, and the slots below the size hold objects.
\<close>

definition well_formed :: "'a vector \<Rightarrow> bool" where
  "well_formed v \<longleftrightarrow>
     length (cells (data v)) = capacity (data v) \<and> size_v v \<le> capacity (data v) \<and>
     list_all (\<lambda>c. c \<noteq> None) (take (size_v v) (cells (data v)))"

text \<open>\<^verbatim>\<open>it + n\<close> on a pointer, and \<^verbatim>\<open>*it\<close> for a pointer into the block of the container.\<close>

definition advance :: "iterator \<Rightarrow> nat \<Rightarrow> iterator" where
  "advance it n = (fst it, snd it + n)"

definition deref :: "'a vector \<Rightarrow> iterator \<Rightarrow> 'a option" where
  "deref v it = (if fst it = buffer (data v) then load (cells (data v)) (snd it) else None)"

text \<open>
  A property of the state a call leaves behind, whether it returned or threw. It says
  nothing of a call whose behaviour is undefined, which leaves no state.
\<close>

definition leaves :: "('s \<Rightarrow> bool) \<Rightarrow> ('r, 's) outcome \<Rightarrow> bool" where
  "leaves P r = (case r of Returns x s \<Rightarrow> P s | Throws err s \<Rightarrow> P s | Undefined \<Rightarrow> True)"

text \<open>The invariant \<open>size \<le> capacity\<close> of one container, and of every object of a store.\<close>

definition within_capacity :: "'a vector \<Rightarrow> bool" where
  "within_capacity v \<longleftrightarrow> size_v v \<le> capacity (data v)"

definition all_within_capacity :: "'a store \<Rightarrow> bool" where
  "all_within_capacity st \<longleftrightarrow> (\<forall>p v. st p = Some v \<longrightarrow> within_capacity v)"

text \<open>
  The container is full, the allocation of the new block succeeds, and the move
  construction of the new element into it (line 316 or 320 of \<^verbatim>\<open>PushBack(T&&)\<close>, line 355 of
  \<^verbatim>\<open>EmplaceBack\<close> called with a \<^verbatim>\<open>T&&\<close>) throws.
\<close>

definition new_element_move_throws :: "'a elem_type \<Rightarrow> env \<Rightarrow> 'a vector \<Rightarrow> 'a \<Rightarrow> bool" where
  "new_element_move_throws T e v val \<longleftrightarrow>
     size_v v = Capacity v \<and>
     (case (RawMemory_sized e (if size_v v = 0 then 1 else size_v v * 2)
              :: 'a raw_memory option \<times> env) of
        (None, e1) \<Rightarrow> False
      | (Some new_data, e1) \<Rightarrow> fst (move_construct T e1 val) = None)"

text \<open>The outcome of a call with the returned value forgotten.\<close>

definition result_state :: "('r, 's) outcome \<Rightarrow> (unit, 's) outcome" where
  "result_state r =
     (case r of Returns x s \<Rightarrow> Returns () s | Throws err s \<Rightarrow> Throws err s
      | Undefined \<Rightarrow> Undefined)"

section \<open>Basic facts\<close>

lemma result_state_simps [simp]:
  "result_state (Returns x s) = Returns () s"
  "result_state (Throws err s) = Throws err s"
  "result_state Undefined = Undefined"
  by (simp_all add: result_state_def)

lemma set_cells_same [simp]: "set_cells v (cells (data v)) = v"
  by (simp add: set_cells_def)

lemma set_cells_fields [simp]:
  "size_v (set_cells v cs) = size_v v"
  "capacity (data (set_cells v cs)) = capacity (data v)"
  "buffer (data (set_cells v cs)) = buffer (data v)"
  "cells (data (set_cells v cs)) = cs"
  by (simp_all add: set_cells_def)

lemma well_formed_intro:
  assumes "length (cells (data v)) = capacity (data v)" and "size_v v \<le> capacity (data v)"
    and "\<forall>j<size_v v. cells (data v) ! j \<noteq> None"
  shows "well_formed v"
  using assms by (auto simp: well_formed_def list_all_length)

section \<open>Reserve within the capacity\<close>

text \<open>
  Claim C7. For every container and every \<open>c\<close> with \<open>c \<le> capacity\<close>, \<^verbatim>\<open>Reserve(c)\<close> returns
  and changes nothing: the container is the same value (capacity, size, every slot of the
  block and the address of the block, hence \<^verbatim>\<open>begin()\<close> and \<^verbatim>\<open>end()\<close>), and the environment
  is the same, so no constructor or destructor of \<^verbatim>\<open>T\<close> ran and nothing was allocated.
\<close>

theorem Reserve_within_capacity_is_noop:
  assumes "c \<le> Capacity v"
  shows "\<exists>e' v'. Reserve T e v c = Returns () (e', v') \<and> v' = v \<and> e' = e \<and>
           Capacity v' = Capacity v \<and> Size v' = Size v \<and> elements v' = elements v \<and>
           begin_it v' = begin_it v \<and> end_it v' = end_it v \<and>
           n_move e' = n_move e \<and> n_copy e' = n_copy e"
  using assms by (simp add: Reserve_def Capacity_def)

theorem Reserve_within_capacity_is_noop_witness:
  "(3::nat) \<le> Capacity (vec_of 7 4 [10, 20, 30::int]) \<and>
   Reserve int_type env0 (vec_of 7 4 [10, 20, 30::int]) 3 =
     Returns () (env0, vec_of 7 4 [10, 20, 30])"
proof -
  have h: "(3::nat) \<le> Capacity (vec_of 7 4 [10, 20, 30::int])"
    by (simp add: Capacity_def vec_of_def)
  from Reserve_within_capacity_is_noop [OF h, of int_type env0] h show ?thesis by auto
qed

section \<open>Self-assignment\<close>

text \<open>
  Claim C9. For every container \<open>v\<close>, at address \<open>p\<close> of the store, the copy assignment
  \<^verbatim>\<open>v = v\<close> and the move assignment \<^verbatim>\<open>v = std::move(v)\<close> return and leave the whole state as
  it was: size, capacity and every element of \<open>v\<close> are unchanged.
\<close>

theorem self_assignment_is_noop:
  assumes "st p = Some v"
  shows "copy_assign (e, st) p p = Returns () (e, st) \<and>
         move_assign (e, st) p p = Returns () (e, st)"
  using assms by (simp add: copy_assign_def move_assign_def)

theorem self_assignment_is_noop_witness:
  "copy_assign (env0, [0 \<mapsto> vec_of 7 4 [10, 20, 30::int]]) 0 0 =
     Returns () (env0, [0 \<mapsto> vec_of 7 4 [10, 20, 30]]) \<and>
   move_assign (env0, [0 \<mapsto> vec_of 7 4 [10, 20, 30::int]]) 0 0 =
     Returns () (env0, [0 \<mapsto> vec_of 7 4 [10, 20, 30]])"
proof -
  have h: "[(0::nat) \<mapsto> vec_of 7 4 [10, 20, 30::int]] 0 = Some (vec_of 7 4 [10, 20, 30])"
    by simp
  show ?thesis
    using self_assignment_is_noop [where st = "[0 \<mapsto> vec_of 7 4 [10, 20, 30::int]]"
        and p = 0 and v = "vec_of 7 4 [10, 20, 30]" and e = env0, OF h]
    by simp
qed

section \<open>Moving a container\<close>

text \<open>
  Claim C6. For every container \<open>v\<close>, at address \<open>q\<close>, the move construction of a new object
  at \<open>p\<close> from it and the move assignment from it to a distinct object at \<open>p\<close> both return
  (neither has an outcome other than returning), leave at \<open>p\<close> exactly the value \<open>v\<close> had
  (size, capacity, block and elements), and leave the source with size 0 and capacity 0.
\<close>

theorem move_leaves_source_empty:
  assumes "st q = Some v" and "p \<noteq> q"
  shows "(st p = None \<longrightarrow>
            (\<exists>st' r. move_construct_at (e, st) p q = Returns () (e, st') \<and>
               st' p = Some v \<and> st' q = Some r \<and> Size r = 0 \<and> Capacity r = 0)) \<and>
         (st p \<noteq> None \<longrightarrow>
            (\<exists>st' r. move_assign (e, st) p q = Returns () (e, st') \<and>
               st' p = Some v \<and> st' q = Some r \<and> Size r = 0 \<and> Capacity r = 0))"
  using assms
  by (auto simp: move_construct_at_def move_assign_def Vector_move_def move_assign_body_def
        Size_def Capacity_def)

theorem move_leaves_source_empty_witness:
  "(\<exists>st' r. move_construct_at (env0, [0 \<mapsto> vec_of 7 4 [10, 20, 30::int]]) 1 0 =
               Returns () (env0, st') \<and>
        st' 1 = Some (vec_of 7 4 [10, 20, 30]) \<and> st' 0 = Some r \<and>
        Size r = 0 \<and> Capacity r = 0) \<and>
   (\<exists>st' r. move_assign (env0, [0 \<mapsto> vec_of 7 4 [10, 20, 30::int], 1 \<mapsto> vec_of 8 1 [5]]) 1 0 =
               Returns () (env0, st') \<and>
        st' 1 = Some (vec_of 7 4 [10, 20, 30]) \<and> st' 0 = Some r \<and>
        Size r = 0 \<and> Capacity r = 0)"
proof -
  have n: "(1::nat) \<noteq> 0" by simp
  have a: "\<exists>st' r. move_construct_at (env0, [0 \<mapsto> vec_of 7 4 [10, 20, 30::int]]) 1 0 =
                     Returns () (env0, st') \<and>
        st' 1 = Some (vec_of 7 4 [10, 20, 30]) \<and> st' 0 = Some r \<and>
        Size r = 0 \<and> Capacity r = 0"
    using move_leaves_source_empty [where st = "[0 \<mapsto> vec_of 7 4 [10, 20, 30::int]]"
        and q = 0 and p = 1 and e = env0 and v = "vec_of 7 4 [10, 20, 30]", OF _ n]
    by simp
  have b: "\<exists>st' r. move_assign (env0, [0 \<mapsto> vec_of 7 4 [10, 20, 30::int], 1 \<mapsto> vec_of 8 1 [5]]) 1 0 =
                     Returns () (env0, st') \<and>
        st' 1 = Some (vec_of 7 4 [10, 20, 30]) \<and> st' 0 = Some r \<and>
        Size r = 0 \<and> Capacity r = 0"
    using move_leaves_source_empty
        [where st = "[0 \<mapsto> vec_of 7 4 [10, 20, 30::int], 1 \<mapsto> vec_of 8 1 [5]]"
        and q = 0 and p = 1 and e = env0 and v = "vec_of 7 4 [10, 20, 30]", OF _ n]
    by simp
  from a b show ?thesis by blast
qed

section \<open>Insertion at the end\<close>

lemmas result_state_distrib =
  outcome.case_distrib [of result_state] prod.case_distrib [of result_state]
  option.case_distrib [of result_state] if_distrib [of result_state]

lemma construct_at_CopyOf: "construct_at T e cs i (CopyOf x) = CopyConstruct e cs i x"
  by (simp add: construct_at_def CopyConstruct_def)

text \<open>\<^verbatim>\<open>PushBack(const T&)\<close> is \<^verbatim>\<open>EmplaceBack\<close> of a \<^verbatim>\<open>const T&\<close>, in every outcome.\<close>

lemma PushBack_as_EmplaceBack:
  "PushBack T e v x = result_state (EmplaceBack T e v (CopyOf x))"
  by (simp add: PushBack_def EmplaceBack_def construct_at_CopyOf result_state_distrib
      cong: outcome.case_cong prod.case_cong option.case_cong if_cong)

text \<open>
  \<^verbatim>\<open>PushBack(T&&)\<close> is \<^verbatim>\<open>EmplaceBack\<close> of a \<^verbatim>\<open>T&&\<close> except on the path of lines 319-323,
  where the move constructor of the new element throws and \<^verbatim>\<open>PushBack\<close> copies instead.
\<close>

lemma construct_at_MoveOf_Throws:
  "construct_at T e cs i (MoveOf x) = Throws err s \<Longrightarrow> fst (move_construct T e x) = None"
  by (auto simp: construct_at_def split: if_splits prod.splits option.splits)

lemma PushBack_rv_as_EmplaceBack:
  assumes "nothrow_move_constructible T \<or> \<not> copy_constructible T \<or>
           \<not> new_element_move_throws T e v x"
  shows "PushBack_rv T e v x = result_state (EmplaceBack T e v (MoveOf x))"
proof (cases "size_v v = Capacity v")
  case False
  then show ?thesis
    by (simp add: PushBack_rv_def EmplaceBack_def split: outcome.splits prod.splits)
next
  case True
  obtain m e1 where a: "(RawMemory_sized e (if size_v v = 0 then 1 else size_v v * 2)
        :: 'a raw_memory option \<times> env) = (m, e1)"
    by (cases "RawMemory_sized e (if size_v v = 0 then 1 else size_v v * 2)
        :: 'a raw_memory option \<times> env")
  show ?thesis
  proof (cases m)
    case None
    with True a show ?thesis by (simp add: EmplaceBack_def PushBack_rv_def)
  next
    case (Some nd)
    show ?thesis
    proof (cases "construct_at T e1 (cells nd) (size_v v) (MoveOf x)")
      case (Returns u s1)
      with True a Some show ?thesis
        by (simp add: EmplaceBack_def PushBack_rv_def SafeMove_def
            split: prod.splits outcome.splits)
    next
      case (Throws err s1)
      from construct_at_MoveOf_Throws [OF Throws] True a Some
      have "new_element_move_throws T e v x"
        by (simp add: new_element_move_throws_def)
      with assms have "nothrow_move_constructible T \<or> \<not> copy_constructible T" by blast
      with True a Some Throws show ?thesis
        by (simp add: EmplaceBack_def PushBack_rv_def split: prod.splits)
    next
      case Undefined
      with True a Some show ?thesis by (simp add: EmplaceBack_def PushBack_rv_def)
    qed
  qed
qed

text \<open>An \<^verbatim>\<open>EmplaceBack\<close> of a \<^verbatim>\<open>T&&\<close> that returns has moved the new element without throwing.\<close>

lemma EmplaceBack_MoveOf_Returns_move_ok:
  assumes "EmplaceBack T e v (MoveOf x) = Returns it s"
  shows "\<not> new_element_move_throws T e v x"
proof
  assume t: "new_element_move_throws T e v x"
  then have full: "size_v v = Capacity v" by (simp add: new_element_move_throws_def)
  from t obtain nd :: "'a raw_memory" and e1 where
    a: "RawMemory_sized e (if size_v v = 0 then 1 else size_v v * 2) = (Some nd, e1)" and
    m: "fst (move_construct T e1 x) = None"
    by (auto simp: new_element_move_throws_def split: prod.splits option.splits)
  from m have "construct_at T e1 (cells nd) (size_v v) (MoveOf x) \<noteq> Returns u s'" for u s'
    by (auto simp: construct_at_def split: prod.splits option.splits)
  with assms full a show False
    by (auto simp: EmplaceBack_def split: outcome.splits prod.splits)
qed

text \<open>
  Claim C8, as stated, fails: with an element type that is copy-constructible and whose
  move constructor may throw, a full container \<open>["a", "b"]\<close> of capacity 2, and a move
  construction of the new element that throws (the allocation before it succeeds),
  \<^verbatim>\<open>Insert(end(), std::move(c))\<close> throws and leaves the container at size 2, while
  \<^verbatim>\<open>PushBack(std::move(c))\<close> catches the exception, copies the value and returns with size 3.
\<close>

theorem Insert_rv_at_end_counterexample:
  "Insert_rv throwing_string_type (env0\<lparr>faults := [False, True]\<rparr>) (vec_of 7 2 [''a'', ''b''])
      (end_it (vec_of 7 2 [''a'', ''b''])) ''c'' =
     Throws ElemError (env0\<lparr>next_block := 1, n_move := 1\<rparr>, vec_of 7 2 [''a'', ''b'']) \<and>
   PushBack_rv throwing_string_type (env0\<lparr>faults := [False, True]\<rparr>) (vec_of 7 2 [''a'', ''b''])
      ''c'' =
     Returns () (env0\<lparr>next_block := 1, n_move := 1, n_copy := 3, n_destroy := 2\<rparr>,
                 vec_of 1 4 [''a'', ''b'', ''c''])"
  by code_simp

text \<open>
  Claim C8, amended. For every container, environment and arguments, \<^verbatim>\<open>Emplace\<close> at the end
  iterator has the outcome of \<^verbatim>\<open>EmplaceBack\<close> with the same arguments: the same returned
  position, size, capacity and elements, or the same exception and state. \<^verbatim>\<open>Insert\<close> of a
  \<^verbatim>\<open>const T&\<close> at the end iterator has the outcome of \<^verbatim>\<open>PushBack(const T&)\<close>, up to the
  returned value. \<^verbatim>\<open>Insert\<close> of a \<^verbatim>\<open>T&&\<close> at the end iterator has the outcome of
  \<^verbatim>\<open>PushBack(T&&)\<close>, returning or throwing, in every case but one: \<^verbatim>\<open>T\<close> is
  copy-constructible, its move constructor is not \<^verbatim>\<open>noexcept\<close>, the container is full, the
  allocation succeeds and the move construction of the new element throws. In particular
  the two agree when the allocation fails, when the relocation of the old elements
  fails, when the container has room, and whenever the insertion returns.
\<close>

theorem insertion_at_end_agrees:
  "Emplace T e v (end_it v) a = EmplaceBack T e v a \<and>
   result_state (Insert T e v (end_it v) x) = PushBack T e v x \<and>
   (nothrow_move_constructible T \<or> \<not> copy_constructible T \<or>
    \<not> new_element_move_throws T e v x \<longrightarrow>
      result_state (Insert_rv T e v (end_it v) x) = PushBack_rv T e v x) \<and>
   (size_v v \<noteq> Capacity v \<or> (\<exists>it s. Insert_rv T e v (end_it v) x = Returns it s) \<longrightarrow>
      \<not> new_element_move_throws T e v x)"
  using PushBack_rv_as_EmplaceBack [of T e v x] EmplaceBack_MoveOf_Returns_move_ok [of T e v x]
  by (auto simp add: Emplace_def Insert_def Insert_rv_def PushBack_as_EmplaceBack
      new_element_move_throws_def)

text \<open>
  An element type that cannot throw; then the throwing string type with a full container
  when the allocation fails, and when the relocation of the second element fails.
\<close>

theorem insertion_at_end_agrees_witness:
  "result_state (Insert_rv int_type env0 (vec_of 7 2 [1, 2::int]) (end_it (vec_of 7 2 [1, 2::int])) 3) =
     PushBack_rv int_type env0 (vec_of 7 2 [1, 2::int]) 3 \<and>
   PushBack_rv int_type env0 (vec_of 7 2 [1, 2::int]) 3 =
     Returns () (env0\<lparr>next_block := 1, n_move := 3, n_destroy := 2\<rparr>, vec_of 1 4 [1, 2, 3]) \<and>
   result_state (Insert_rv throwing_string_type (env0\<lparr>faults := [True]\<rparr>)
       (vec_of 7 2 [''a'', ''b'']) (end_it (vec_of 7 2 [''a'', ''b''])) ''c'') =
     PushBack_rv throwing_string_type (env0\<lparr>faults := [True]\<rparr>) (vec_of 7 2 [''a'', ''b'']) ''c'' \<and>
   PushBack_rv throwing_string_type (env0\<lparr>faults := [True]\<rparr>) (vec_of 7 2 [''a'', ''b'']) ''c'' =
     Throws BadAlloc (env0, vec_of 7 2 [''a'', ''b'']) \<and>
   result_state (Insert_rv throwing_string_type (env0\<lparr>faults := [False, False, True]\<rparr>)
       (vec_of 7 2 [''a'', ''b'']) (end_it (vec_of 7 2 [''a'', ''b''])) ''c'') =
     PushBack_rv throwing_string_type (env0\<lparr>faults := [False, False, True]\<rparr>)
       (vec_of 7 2 [''a'', ''b'']) ''c'' \<and>
   PushBack_rv throwing_string_type (env0\<lparr>faults := [False, False, True]\<rparr>)
       (vec_of 7 2 [''a'', ''b'']) ''c'' =
     Throws ElemError (env0\<lparr>next_block := 1, n_move := 1, n_copy := 1\<rparr>,
                       vec_of 7 2 [''a'', ''b'']) \<and>
   \<not> new_element_move_throws int_type env0 (vec_of 7 4 [1, 2::int]) 3"
proof -
  have h: "nothrow_move_constructible int_type" by (simp add: int_type_def)
  have a: "result_state (Insert_rv int_type env0 (vec_of 7 2 [1, 2::int])
             (end_it (vec_of 7 2 [1, 2::int])) 3) =
     PushBack_rv int_type env0 (vec_of 7 2 [1, 2::int]) 3"
    using insertion_at_end_agrees [of int_type env0 "vec_of 7 2 [1, 2::int]" "Args 0" 3] h by simp
  have a': "PushBack_rv int_type env0 (vec_of 7 2 [1, 2::int]) 3 =
     Returns () (env0\<lparr>next_block := 1, n_move := 3, n_destroy := 2\<rparr>, vec_of 1 4 [1, 2, 3])"
    by code_simp
  have n1: "\<not> new_element_move_throws throwing_string_type (env0\<lparr>faults := [True]\<rparr>)
      (vec_of 7 2 [''a'', ''b'']) ''c''"
    by code_simp
  have b: "result_state (Insert_rv throwing_string_type (env0\<lparr>faults := [True]\<rparr>)
       (vec_of 7 2 [''a'', ''b'']) (end_it (vec_of 7 2 [''a'', ''b''])) ''c'') =
     PushBack_rv throwing_string_type (env0\<lparr>faults := [True]\<rparr>) (vec_of 7 2 [''a'', ''b'']) ''c''"
    using insertion_at_end_agrees [of throwing_string_type "env0\<lparr>faults := [True]\<rparr>"
        "vec_of 7 2 [''a'', ''b'']" "Args []" "''c''"] n1 by blast
  have b': "PushBack_rv throwing_string_type (env0\<lparr>faults := [True]\<rparr>)
       (vec_of 7 2 [''a'', ''b'']) ''c'' = Throws BadAlloc (env0, vec_of 7 2 [''a'', ''b''])"
    by code_simp
  have n2: "\<not> new_element_move_throws throwing_string_type
      (env0\<lparr>faults := [False, False, True]\<rparr>) (vec_of 7 2 [''a'', ''b'']) ''c''"
    by code_simp
  have c: "result_state (Insert_rv throwing_string_type (env0\<lparr>faults := [False, False, True]\<rparr>)
       (vec_of 7 2 [''a'', ''b'']) (end_it (vec_of 7 2 [''a'', ''b''])) ''c'') =
     PushBack_rv throwing_string_type (env0\<lparr>faults := [False, False, True]\<rparr>)
       (vec_of 7 2 [''a'', ''b'']) ''c''"
    using insertion_at_end_agrees [of throwing_string_type
        "env0\<lparr>faults := [False, False, True]\<rparr>" "vec_of 7 2 [''a'', ''b'']" "Args []" "''c''"] n2
    by blast
  have c': "PushBack_rv throwing_string_type (env0\<lparr>faults := [False, False, True]\<rparr>)
       (vec_of 7 2 [''a'', ''b'']) ''c'' =
     Throws ElemError (env0\<lparr>next_block := 1, n_move := 1, n_copy := 1\<rparr>,
                       vec_of 7 2 [''a'', ''b''])"
    by code_simp
  have r: "size_v (vec_of 7 4 [1, 2::int]) \<noteq> Capacity (vec_of 7 4 [1, 2::int])"
    by (simp add: vec_of_def Capacity_def)
  have d: "\<not> new_element_move_throws int_type env0 (vec_of 7 4 [1, 2::int]) 3"
    using insertion_at_end_agrees [of int_type env0 "vec_of 7 4 [1, 2::int]" "Args 0" 3] r
    by blast
  from a a' b b' c c' d show ?thesis by (intro conjI)
qed

section \<open>Copy assignment\<close>

text \<open>
  Claim C1 does not hold of the code. A container \<open>a\<close> that three calls of \<^verbatim>\<open>PushBack\<close> made
  \<open>[1, 2, 3]\<close> with capacity 4 is assigned \<open>b = [10, 20, 30, 40]\<close>. The assignment takes the
  branch of lines 242-250, assigns the first three elements and copy-constructs the
  fourth from \<open>b[1]\<close> (the source range starts at \<^verbatim>\<open>rhs.size_ - size_\<close>, not at
  \<^verbatim>\<open>size_\<close>): \<open>a\<close> ends as \<open>[10, 20, 30, 20]\<close>.
\<close>

theorem copy_assign_wrong_tail:
  "PushBack_seq int_type env0 Vector_default [1, 2, 3] =
     Returns [1, 2, 4] (env0\<lparr>next_block := 3, n_copy := 3, n_move := 3, n_destroy := 3\<rparr>,
                        vec_of 3 4 [1, 2, 3]) \<and>
   copy_assign_body env0 (vec_of 3 4 [1, 2, 3]) (vec_of 7 4 [10, 20, 30, 40::int]) =
     Returns () (env0\<lparr>n_assign := 3, n_copy := 1\<rparr>, vec_of 3 4 [10, 20, 30, 20])"
  by code_simp

section \<open>The strong guarantee of PushBack and EmplaceBack\<close>










section \<open>The position an insertion returns\<close>

lemma construct_from_value:
  "construct_from T e a = (Some y, e1) \<Longrightarrow> y = value_of a"
  by (cases a)
     (auto simp: construct_def copy_construct_def move_construct_def fault_def
        split: if_splits list.splits prod.splits option.splits)

lemma move_assignment_value:
  "move_assignment T e x = (Some (y, x'), e1) \<Longrightarrow> y = x"
  by (auto simp: move_assignment_def fault_def split: if_splits list.splits prod.splits)

text \<open>The relocation loops write only the slots of their target range.\<close>

lemma uninit_copy_loop_frame:
  "uninit_copy_loop e src first n dst cur = Returns u (e', dst', cur') \<Longrightarrow>
     length dst' = length dst \<and> (\<forall>j. j < cur \<or> cur + n \<le> j \<longrightarrow> dst' ! j = dst ! j)"
proof (induction n arbitrary: e first dst cur)
  case 0
  then show ?case by simp
next
  case (Suc n)
  from Suc.prems obtain x y e1 where
    r: "uninit_copy_loop e1 src (Suc first) n (dst[cur := Some y]) (Suc cur) = Returns u (e', dst', cur')"
    by (auto split: option.splits if_splits prod.splits)
  from Suc.IH [OF r] show ?case by auto
qed

lemma uninit_move_loop_frame:
  "uninit_move_loop T e src first n dst cur = Returns u (e', src', dst', cur') \<Longrightarrow>
     length dst' = length dst \<and> (\<forall>j. j < cur \<or> cur + n \<le> j \<longrightarrow> dst' ! j = dst ! j)"
proof (induction n arbitrary: e src first dst cur)
  case 0
  then show ?case by simp
next
  case (Suc n)
  from Suc.prems obtain x' y e1 where
    r: "uninit_move_loop T e1 (src[first := Some x']) (Suc first) n (dst[cur := Some y]) (Suc cur)
          = Returns u (e', src', dst', cur')"
    by (auto split: option.splits if_splits prod.splits)
  from Suc.IH [OF r] show ?case by auto
qed

lemma SafeMove_frame:
  assumes "SafeMove T e src first n dst result = Returns u (e', src', dst')"
  shows "length dst' = length dst \<and> (\<forall>j. j < result \<or> result + n \<le> j \<longrightarrow> dst' ! j = dst ! j)"
  using assms uninit_copy_loop_frame [of e src first n dst result]
    uninit_move_loop_frame [of T e src first n dst result]
  by (auto simp: SafeMove_def uninitialized_copy_n_def uninitialized_move_n_def
      split: if_splits outcome.splits prod.splits)

lemma construct_at_Returns:
  assumes "construct_at T e cs i a = Returns u (e', cs')"
  shows "i < length cs \<and> cs' = cs[i := Some (value_of a)]"
  using assms construct_from_value [of T e a]
  by (auto simp: construct_at_def split: if_splits prod.splits option.splits)

lemma EmplaceBack_Returns:
  assumes "EmplaceBack T e v a = Returns it (e', v')"
  shows "size_v v' = size_v v + 1 \<and> it = advance (begin_it v') (size_v v' - 1) \<and>
         deref v' it = Some (value_of a)"
proof (cases "size_v v = Capacity v")
  case False
  with assms show ?thesis
    by (auto simp: EmplaceBack_def advance_def begin_it_def deref_def load_def
        dest!: construct_at_Returns split: outcome.splits prod.splits)
next
  case True
  with assms obtain new_data :: "'a raw_memory" and e1 e2 nd u' src dst where
    c: "construct_at T e1 (cells new_data) (size_v v) a = Returns () (e2, nd)" and
    m: "SafeMove T e2 (cells (data v)) 0 (size_v v) nd 0 = Returns u' (e', src, dst)" and
    v': "v' = \<lparr>data = new_data\<lparr>cells := dst\<rparr>, size_v = size_v v + 1\<rparr>" and
    it: "it = (buffer new_data, size_v v + 1 - 1)"
    by (auto simp: EmplaceBack_def split: outcome.splits prod.splits option.splits)
  from construct_at_Returns [OF c] SafeMove_frame [OF m] v' it show ?thesis
    by (auto simp: advance_def begin_it_def deref_def load_def)
qed

lemma index_of_end: "index_of v (end_it v) = Some (size_v v)"
  by (simp add: index_of_def end_it_def)

lemma EmplaceWithReallocate_Returns:
  assumes "EmplaceWithReallocate T e v pos a = Returns it (e', v')"
  shows "\<exists>index. index_of v pos = Some index \<and> size_v v' = size_v v + 1 \<and>
           it = advance (begin_it v') index \<and> deref v' it = Some (value_of a)"
proof -
  from assms obtain index where i: "index_of v pos = Some index"
    by (auto simp: EmplaceWithReallocate_def split: option.splits)
  with assms obtain new_data :: "'a raw_memory" and e1 e2 nd e3 src dst src' dst' u' u'' where
    c: "construct_at T e1 (cells new_data) index a = Returns () (e2, nd)" and
    m1: "SafeMove T e2 (cells (data v)) 0 index nd 0 = Returns u' (e3, src, dst)" and
    m2: "SafeMove T e3 src index (size_v v - index) dst (index + 1) = Returns u'' (e', src', dst')" and
    v': "v' = \<lparr>data = new_data\<lparr>cells := dst'\<rparr>, size_v = size_v v + 1\<rparr>" and
    it: "it = (buffer new_data, index)"
    by (auto simp: EmplaceWithReallocate_def split: outcome.splits prod.splits option.splits)
  from construct_at_Returns [OF c] SafeMove_frame [OF m1] SafeMove_frame [OF m2] v' it i
  show ?thesis
    by (auto simp: advance_def begin_it_def deref_def load_def)
qed

lemma EmplaceWithoutReallocate_Returns:
  assumes "EmplaceWithoutReallocate T e v pos a = Returns it (e', v')"
  shows "\<exists>index. index_of v pos = Some index \<and> size_v v' = size_v v + 1 \<and>
           it = advance (begin_it v') index \<and> deref v' it = Some (value_of a)"
proof -
  from assms obtain index where i: "index_of v pos = Some index"
    by (auto simp: EmplaceWithoutReallocate_def split: option.splits)
  with assms obtain temp e1 where t: "construct_from T e a = (Some temp, e1)"
    by (auto simp: EmplaceWithoutReallocate_def split: prod.splits option.splits)
  from assms i t obtain cs old e3 y' temp' e4 where
    l: "load cs index = Some old" and
    m: "move_assignment T e3 temp = (Some (y', temp'), e4)" and
    v': "v' = (set_cells v (cs[index := Some y']))\<lparr>size_v := size_v v + 1\<rparr>" and
    it: "it = (buffer (data v), index)"
    by (auto simp: EmplaceWithoutReallocate_def
        split: outcome.splits prod.splits option.splits if_splits)
  from l have "index < length cs" by (auto simp: load_def split: if_splits)
  with construct_from_value [OF t] move_assignment_value [OF m] v' it i show ?thesis
    by (auto simp: advance_def begin_it_def deref_def load_def)
qed

lemma Emplace_Returns:
  assumes "Emplace T e v pos a = Returns it (e', v')"
  shows "\<exists>index. index_of v pos = Some index \<and> size_v v' = size_v v + 1 \<and>
           it = advance (begin_it v') index \<and> deref v' it = Some (value_of a)"
proof (cases "pos = end_it v")
  case True
  with assms EmplaceBack_Returns [of T e v a it e' v'] index_of_end [of v]
  show ?thesis by (auto simp: Emplace_def)
next
  case False
  with assms EmplaceWithReallocate_Returns [of T e v pos a it e' v']
    EmplaceWithoutReallocate_Returns [of T e v pos a it e' v']
  show ?thesis by (auto simp: Emplace_def split: if_splits)
qed

text \<open>
  Claim C10. For every container and every insertion that returns: \<^verbatim>\<open>EmplaceBack\<close> returns
  the address of the last element after the call (\<^verbatim>\<open>begin() + (size - 1)\<close>, the size having
  grown by one), and \<^verbatim>\<open>Emplace\<close> and both \<^verbatim>\<open>Insert\<close> return \<^verbatim>\<open>begin() + index\<close> for the
  \<^verbatim>\<open>begin()\<close> after the call and \<open>index = pos - begin()\<close> before it; in each case the
  returned position holds the newly constructed element.
\<close>

theorem insertion_reports_position:
  "(EmplaceBack T e v a = Returns it (e', v') \<longrightarrow>
      size_v v' = size_v v + 1 \<and> it = advance (begin_it v') (size_v v' - 1) \<and>
      deref v' it = Some (value_of a)) \<and>
   (Emplace T e v pos a = Returns it (e', v') \<longrightarrow>
      (\<exists>index. index_of v pos = Some index \<and> it = advance (begin_it v') index \<and>
         deref v' it = Some (value_of a))) \<and>
   (Insert T e v pos x = Returns it (e', v') \<longrightarrow>
      (\<exists>index. index_of v pos = Some index \<and> it = advance (begin_it v') index \<and>
         deref v' it = Some x)) \<and>
   (Insert_rv T e v pos x = Returns it (e', v') \<longrightarrow>
      (\<exists>index. index_of v pos = Some index \<and> it = advance (begin_it v') index \<and>
         deref v' it = Some x))"
  using EmplaceBack_Returns [of T e v a it e' v'] Emplace_Returns [of T e v pos a it e' v']
    Emplace_Returns [of T e v pos "CopyOf x" it e' v']
    Emplace_Returns [of T e v pos "MoveOf x" it e' v']
  by (auto simp: Insert_def Insert_rv_def)

theorem insertion_reports_position_witness:
  "EmplaceBack int_type env0 (vec_of 7 2 [1, 2::int]) (Args 3) =
     Returns (1, 2) (env0\<lparr>next_block := 1, n_construct := 1, n_move := 2, n_destroy := 2\<rparr>,
                     vec_of 1 4 [1, 2, 3]) \<and>
   deref (vec_of 1 4 [1, 2, 3::int]) (1, 2) = Some 3 \<and>
   Emplace int_type env0 (vec_of 7 6 [1, 2, 3, 4, 5::int]) (7, 1) (Args 9) =
     Returns (7, 1) (env0\<lparr>n_construct := 1, n_move := 1, n_assign := 4, n_destroy := 1\<rparr>,
                     vec_of 7 6 [1, 9, 2, 3, 4, 5]) \<and>
   deref (vec_of 7 6 [1, 9, 2, 3, 4, 5::int]) (7, 1) = Some 9 \<and>
   Insert int_type env0 (vec_of 7 5 [1, 2, 3, 4, 5::int]) (7, 1) 9 =
     Returns (1, 1) (env0\<lparr>next_block := 1, n_copy := 1, n_move := 5, n_destroy := 5\<rparr>,
                     vec_of 1 10 [1, 9, 2, 3, 4, 5]) \<and>
   deref (vec_of 1 10 [1, 9, 2, 3, 4, 5::int]) (1, 1) = Some 9 \<and>
   Insert_rv int_type env0 (vec_of 7 5 [1, 2, 3, 4, 5::int]) (7, 0) 9 =
     Returns (1, 0) (env0\<lparr>next_block := 1, n_move := 6, n_destroy := 5\<rparr>,
                     vec_of 1 10 [9, 1, 2, 3, 4, 5]) \<and>
   deref (vec_of 1 10 [9, 1, 2, 3, 4, 5::int]) (1, 0) = Some 9"
proof -
  have a: "EmplaceBack int_type env0 (vec_of 7 2 [1, 2::int]) (Args 3) =
     Returns (1, 2) (env0\<lparr>next_block := 1, n_construct := 1, n_move := 2, n_destroy := 2\<rparr>,
                     vec_of 1 4 [1, 2, 3])"
    by code_simp
  have b: "Emplace int_type env0 (vec_of 7 6 [1, 2, 3, 4, 5::int]) (7, 1) (Args 9) =
     Returns (7, 1) (env0\<lparr>n_construct := 1, n_move := 1, n_assign := 4, n_destroy := 1\<rparr>,
                     vec_of 7 6 [1, 9, 2, 3, 4, 5])"
    by code_simp
  have c: "Insert int_type env0 (vec_of 7 5 [1, 2, 3, 4, 5::int]) (7, 1) 9 =
     Returns (1, 1) (env0\<lparr>next_block := 1, n_copy := 1, n_move := 5, n_destroy := 5\<rparr>,
                     vec_of 1 10 [1, 9, 2, 3, 4, 5])"
    by code_simp
  have d: "Insert_rv int_type env0 (vec_of 7 5 [1, 2, 3, 4, 5::int]) (7, 0) 9 =
     Returns (1, 0) (env0\<lparr>next_block := 1, n_move := 6, n_destroy := 5\<rparr>,
                     vec_of 1 10 [9, 1, 2, 3, 4, 5])"
    by code_simp
  from a insertion_reports_position [where T = int_type and e = env0
      and v = "vec_of 7 2 [1, 2]" and a = "Args 3" and it = "(1, 2)"
      and e' = "env0\<lparr>next_block := 1, n_construct := 1, n_move := 2, n_destroy := 2\<rparr>"
      and v' = "vec_of 1 4 [1, 2, 3]"]
  have a': "deref (vec_of 1 4 [1, 2, 3::int]) (1, 2) = Some 3" by fastforce
  from b insertion_reports_position [where T = int_type and e = env0
      and v = "vec_of 7 6 [1, 2, 3, 4, 5]" and pos = "(7, 1)" and a = "Args 9" and it = "(7, 1)"
      and e' = "env0\<lparr>n_construct := 1, n_move := 1, n_assign := 4, n_destroy := 1\<rparr>"
      and v' = "vec_of 7 6 [1, 9, 2, 3, 4, 5]"]
  have b': "deref (vec_of 7 6 [1, 9, 2, 3, 4, 5::int]) (7, 1) = Some 9" by fastforce
  from c insertion_reports_position [where T = int_type and e = env0
      and v = "vec_of 7 5 [1, 2, 3, 4, 5]" and pos = "(7, 1)" and x = 9 and it = "(1, 1)"
      and e' = "env0\<lparr>next_block := 1, n_copy := 1, n_move := 5, n_destroy := 5\<rparr>"
      and v' = "vec_of 1 10 [1, 9, 2, 3, 4, 5]"]
  have c': "deref (vec_of 1 10 [1, 9, 2, 3, 4, 5::int]) (1, 1) = Some 9" by fastforce
  from d insertion_reports_position [where T = int_type and e = env0
      and v = "vec_of 7 5 [1, 2, 3, 4, 5]" and pos = "(7, 0)" and x = 9 and it = "(1, 0)"
      and e' = "env0\<lparr>next_block := 1, n_move := 6, n_destroy := 5\<rparr>"
      and v' = "vec_of 1 10 [9, 1, 2, 3, 4, 5]"]
  have d': "deref (vec_of 1 10 [9, 1, 2, 3, 4, 5::int]) (1, 0) = Some 9" by fastforce
  from a a' b b' c c' d d' show ?thesis by simp
qed

section \<open>Erase\<close>

lemma load_Some: "load cs i = Some x \<longleftrightarrow> i < length cs \<and> cs ! i = Some x"
  by (simp add: load_def)

lemma move_assignment_counters:
  "move_assignment T e x = (r, e1) \<Longrightarrow>
     n_assign e1 = n_assign e + 1 \<and> n_destroy e1 = n_destroy e"
  by (auto simp: move_assignment_def fault_def split: if_splits list.splits)

text \<open>
  \<^verbatim>\<open>std::move(first, last, first - 1)\<close>: every slot of the target range receives the value
  of its right neighbour, with one assignment each.
\<close>

lemma move_range_Returns:
  "move_range T e cs (Suc d) n d = Returns u (e', cs') \<Longrightarrow>
     length cs' = length cs \<and> (\<forall>j<d. cs' ! j = cs ! j) \<and>
     (\<forall>j. d \<le> j \<and> j < d + n \<longrightarrow> cs' ! j = cs ! Suc j) \<and>
     (\<forall>j. d + n < j \<longrightarrow> cs' ! j = cs ! j) \<and>
     n_assign e' = n_assign e + n \<and> n_destroy e' = n_destroy e"
proof (induction n arbitrary: e cs d)
  case 0
  then show ?case by auto
next
  case (Suc n)
  from Suc.prems obtain x old y x' e1 where
    lx: "load cs (Suc d) = Some x" and lo: "load cs d = Some old" and
    ma: "move_assignment T e x = (Some (y, x'), e1)" and
    r: "move_range T e1 (cs[d := Some y, Suc d := Some x']) (Suc (Suc d)) n (Suc d)
          = Returns u (e', cs')"
    by (auto split: option.splits prod.splits)
  note ih = Suc.IH [OF r]
  from move_assignment_value [OF ma] have y: "y = x" .
  from lx lo have b: "Suc d < length cs" "cs ! Suc d = Some x" by (auto simp: load_Some)
  have 1: "length cs' = length cs" using ih by simp
  have 2: "\<forall>j<d. cs' ! j = cs ! j" using ih by auto
  have 3: "cs' ! d = cs ! Suc d" using ih b y by auto
  have 4: "\<forall>j. Suc d \<le> j \<and> j < Suc d + n \<longrightarrow> cs' ! j = cs ! Suc j" using ih by auto
  have 5: "\<forall>j. Suc d + n < j \<longrightarrow> cs' ! j = cs ! j" using ih by auto
  have 6: "n_assign e' = n_assign e + Suc n \<and> n_destroy e' = n_destroy e"
    using ih move_assignment_counters [OF ma] by simp
  have "\<forall>j. d \<le> j \<and> j < d + Suc n \<longrightarrow> cs' ! j = cs ! Suc j"
  proof (intro allI impI)
    fix j assume "d \<le> j \<and> j < d + Suc n"
    then consider "j = d" | "Suc d \<le> j \<and> j < Suc d + n" by force
    then show "cs' ! j = cs ! Suc j" using 3 4 by cases auto
  qed
  with 1 2 5 6 show ?case by simp
qed

lemma move_range_defined:
  "Suc d + n \<le> length cs \<Longrightarrow> \<forall>j. d \<le> j \<and> j < Suc d + n \<longrightarrow> cs ! j \<noteq> None \<Longrightarrow>
     move_range T e cs (Suc d) n d \<noteq> Undefined"
proof (induction n arbitrary: e cs d)
  case 0
  then show ?case by simp
next
  case (Suc n)
  from Suc.prems have "Suc d < length cs" "cs ! d \<noteq> None" "cs ! Suc d \<noteq> None"
    by auto
  then obtain x old where
    lx: "load cs (Suc d) = Some x" and lo: "load cs d = Some old"
    by (auto simp: load_def)
  show ?case
  proof (cases "move_assignment T e x")
    case (Pair r e1)
    show ?thesis
    proof (cases r)
      case None
      with Pair lx lo show ?thesis by simp
    next
      case (Some p)
      obtain y x' where p: "p = (y, x')" by (cases p)
      have "move_range T e1 (cs[d := Some y, Suc d := Some x']) (Suc (Suc d)) n (Suc d) \<noteq> Undefined"
        using Suc.prems by (intro Suc.IH) (auto simp: nth_list_update)
      with Pair Some p lx lo show ?thesis by simp
    qed
  qed
qed

lemma fault_no_failure:
  "True \<notin> set (faults e) \<Longrightarrow> fault e = (b, e1) \<Longrightarrow> \<not> b \<and> True \<notin> set (faults e1)"
  by (auto simp: fault_def split: list.splits)

lemma move_assignment_no_failure:
  assumes "nothrow_move_assignable T \<or> True \<notin> set (faults e)"
    and "move_assignment T e x = (r, e1)"
  shows "r \<noteq> None \<and> (nothrow_move_assignable T \<or> True \<notin> set (faults e1))"
  using assms
  by (auto simp: move_assignment_def fault_def split: if_splits list.splits)

lemma move_range_no_failure:
  "nothrow_move_assignable T \<or> True \<notin> set (faults e) \<Longrightarrow>
     move_range T e cs first n d \<noteq> Throws err s"
proof (induction n arbitrary: e cs first d)
  case 0
  then show ?case by simp
next
  case (Suc n)
  show ?case
  proof (cases "move_assignment T e (the (load cs first))")
    case (Pair r e1)
    from move_assignment_no_failure [OF Suc.prems Pair] Suc.IH [of e1] Pair
    show ?thesis by (auto split: option.splits)
  qed
qed

lemma elements_nth:
  "j < size_v v \<Longrightarrow> elements v ! j = load (cells (data v)) j"
  by (simp add: elements_def)

lemma length_elements [simp]: "length (elements v) = size_v v"
  by (simp add: elements_def)

lemma well_formed_live:
  "well_formed v \<Longrightarrow> j < size_v v \<Longrightarrow> j < length (cells (data v)) \<and> cells (data v) ! j \<noteq> None"
  by (auto simp: well_formed_def list_all_length)

lemma Erase_Returns:
  assumes "Erase T e v pos = Returns it (e', v')" and "pos = advance (begin_it v) i"
    and wf: "well_formed v"
  shows "size_v v' = size_v v - 1 \<and>
         elements v' = take i (elements v) @ drop (Suc i) (elements v) \<and>
         n_assign e' = n_assign e + (size_v v - 1 - i) \<and> n_destroy e' = n_destroy e + 1 \<and>
         it = advance (begin_it v') i \<and> Capacity v' = Capacity v"
proof -
  from assms(2) have pos: "pos = (buffer (data v), i)"
    by (simp add: advance_def begin_it_def)
  with assms(1) have i: "i < size_v v" and io: "index_of v pos = Some i"
    by (auto simp: Erase_def index_of_def split: if_splits)
  from assms(1) io i obtain u e1 cs where
    m: "move_range T e (cells (data v)) (Suc i) (size_v v - Suc i) i = Returns u (e1, cs)" and
    e': "e' = e1\<lparr>n_destroy := n_destroy e1 + 1\<rparr>" and
    v': "v' = (set_cells v (cs[size_v v - 1 := None]))\<lparr>size_v := size_v v - 1\<rparr>" and
    it: "it = (buffer (data v), i)"
    by (auto simp: Erase_def Destroy_def split: outcome.splits prod.splits)
  note mr = move_range_Returns [OF m]
  have el: "elements v' = take i (elements v) @ drop (Suc i) (elements v)"
  proof (rule nth_equalityI)
    show "length (elements v') = length (take i (elements v) @ drop (Suc i) (elements v))"
      using i v' by simp
  next
    fix j assume "j < length (elements v')"
    then have j: "j < size_v v - 1" using v' by simp
    have "elements v' ! j = load (cs[size_v v - 1 := None]) j"
      using j v' by (simp add: elements_nth)
    also have "\<dots> = load cs j" using j by (simp add: load_def)
    also have "\<dots> = (if j < i then load (cells (data v)) j else load (cells (data v)) (Suc j))"
    proof -
      from wf have "size_v v \<le> length (cells (data v))" by (simp add: well_formed_def)
      with mr j i show ?thesis by (auto simp: load_def)
    qed
    also have "\<dots> = (take i (elements v) @ drop (Suc i) (elements v)) ! j"
      using i j by (simp add: nth_append elements_nth)
    finally show "elements v' ! j = (take i (elements v) @ drop (Suc i) (elements v)) ! j" .
  qed
  from mr e' v' it el i show ?thesis
    by (simp add: advance_def begin_it_def Capacity_def)
qed

text \<open>
  Where the destructor ran: the slot of the former last element holds no object after the
  call, the slots below it all do, and the slots beyond it are as they were.
\<close>

lemma Erase_Returns_slots:
  assumes "Erase T e v pos = Returns it (e', v')" and "pos = advance (begin_it v) i"
    and wf: "well_formed v"
  shows "load (cells (data v')) (size_v v - 1) = None \<and>
         drop (size_v v) (cells (data v')) = drop (size_v v) (cells (data v)) \<and>
         well_formed v'"
proof -
  from assms(2) have pos: "pos = (buffer (data v), i)"
    by (simp add: advance_def begin_it_def)
  with assms(1) have i: "i < size_v v" and io: "index_of v pos = Some i"
    by (auto simp: Erase_def index_of_def split: if_splits)
  from assms(1) io i obtain u e1 cs where
    m: "move_range T e (cells (data v)) (Suc i) (size_v v - Suc i) i = Returns u (e1, cs)" and
    v': "v' = (set_cells v (cs[size_v v - 1 := None]))\<lparr>size_v := size_v v - 1\<rparr>"
    by (auto simp: Erase_def Destroy_def split: outcome.splits prod.splits)
  note mr = move_range_Returns [OF m]
  from wf have len: "size_v v \<le> length (cells (data v))"
    "length (cells (data v)) = capacity (data v)"
    by (simp_all add: well_formed_def)
  have last: "load (cells (data v')) (size_v v - 1) = None"
    using v' by (simp add: load_def)
  have beyond: "drop (size_v v) (cells (data v')) = drop (size_v v) (cells (data v))"
  proof (rule nth_equalityI)
    show "length (drop (size_v v) (cells (data v'))) = length (drop (size_v v) (cells (data v)))"
      using v' mr by simp
  next
    fix j assume "j < length (drop (size_v v) (cells (data v')))"
    then have j: "size_v v + j < length (cells (data v))" using v' mr by simp
    have "i + (size_v v - Suc i) < size_v v + j" using i by simp
    with mr have "cs ! (size_v v + j) = cells (data v) ! (size_v v + j)" by blast
    with j i v' mr show "drop (size_v v) (cells (data v')) ! j = drop (size_v v) (cells (data v)) ! j"
      by simp
  qed
  have "well_formed v'"
  proof (rule well_formed_intro)
    show "length (cells (data v')) = capacity (data v')" using v' mr len by simp
    show "size_v v' \<le> capacity (data v')" using v' len by simp
    show "\<forall>j<size_v v'. cells (data v') ! j \<noteq> None"
    proof (intro allI impI)
      fix j assume "j < size_v v'"
      then have j: "j < size_v v - 1" using v' by simp
      have "cells (data v') ! j = cs ! j" using v' j by simp
      also have "\<dots> = (if j < i then cells (data v) ! j else cells (data v) ! Suc j)"
        using mr j i by auto
      finally show "cells (data v') ! j \<noteq> None"
        using well_formed_live [OF wf, of j] well_formed_live [OF wf, of "Suc j"] j by auto
    qed
  qed
  with last beyond show ?thesis by blast
qed

lemma Erase_defined:
  assumes "well_formed v" and "pos = advance (begin_it v) i" and "i < size_v v"
  shows "Erase T e v pos \<noteq> Undefined"
proof -
  from assms(2) have pos: "pos = (buffer (data v), i)"
    by (simp add: advance_def begin_it_def)
  with assms(3) have io: "index_of v pos = Some i" by (simp add: index_of_def)
  have "move_range T e (cells (data v)) (Suc i) (size_v v - Suc i) i \<noteq> Undefined"
    using assms(1,3) well_formed_live [OF assms(1)]
    by (intro move_range_defined) (auto simp: well_formed_def)
  with io assms(3) show ?thesis
    by (auto simp: Erase_def Destroy_def split: outcome.splits prod.splits)
qed

lemma Erase_no_failure:
  assumes "nothrow_move_assignable T \<or> True \<notin> set (faults e)"
  shows "Erase T e v pos \<noteq> Throws err s"
  using move_range_no_failure [OF assms]
  by (auto simp: Erase_def Destroy_def split: option.splits outcome.splits prod.splits)

text \<open>
  Claim C5. For every well-formed container of size \<open>s \<ge> 1\<close> and every position
  \<open>pos = begin() + i\<close> with \<open>i < s\<close>: \<^verbatim>\<open>Erase(pos)\<close> has defined behaviour; it returns whenever
  no move assignment throws (the move assignment is \<^verbatim>\<open>noexcept\<close>, or no failure is
  scheduled); and whenever it returns, the element at index \<open>i\<close> is gone and the others
  keep their order, the size is \<open>s - 1\<close>, exactly \<open>s - 1 - i\<close> assignments and exactly one
  destructor call were made, the capacity is unchanged and the returned iterator is
  \<^verbatim>\<open>begin() + i\<close>. The destructor call was made on the vacated final slot: slot \<open>s - 1\<close>
  holds no object afterwards, while every slot below it holds one (the container is still
  well-formed) and every slot from \<open>s\<close> on is untouched.
\<close>

theorem Erase_removes_one_element:
  assumes "well_formed v" and "pos = advance (begin_it v) i" and "i < size_v v"
  shows "Erase T e v pos \<noteq> Undefined \<and>
         (nothrow_move_assignable T \<or> True \<notin> set (faults e) \<longrightarrow>
            (\<exists>it e' v'. Erase T e v pos = Returns it (e', v'))) \<and>
         (\<forall>it e' v'. Erase T e v pos = Returns it (e', v') \<longrightarrow>
            size_v v' = size_v v - 1 \<and>
            elements v' = take i (elements v) @ drop (Suc i) (elements v) \<and>
            n_assign e' = n_assign e + (size_v v - 1 - i) \<and>
            n_destroy e' = n_destroy e + 1 \<and>
            it = advance (begin_it v') i \<and> Capacity v' = Capacity v \<and>
            load (cells (data v')) (size_v v - 1) = None \<and>
            drop (size_v v) (cells (data v')) = drop (size_v v) (cells (data v)) \<and>
            well_formed v')"
proof (intro conjI impI allI)
  show "Erase T e v pos \<noteq> Undefined" using assms by (rule Erase_defined)
next
  assume "nothrow_move_assignable T \<or> True \<notin> set (faults e)"
  from Erase_no_failure [OF this, of v pos] Erase_defined [OF assms, of T e]
  show "\<exists>it e' v'. Erase T e v pos = Returns it (e', v')"
    by (cases "Erase T e v pos") auto
next
  fix it e' v' assume r: "Erase T e v pos = Returns it (e', v')"
  note er = Erase_Returns [OF r assms(2) assms(1)]
  note es = Erase_Returns_slots [OF r assms(2) assms(1)]
  from er show "size_v v' = size_v v - 1" by simp
  from er show "elements v' = take i (elements v) @ drop (Suc i) (elements v)" by simp
  from er show "n_assign e' = n_assign e + (size_v v - 1 - i)" by simp
  from er show "n_destroy e' = n_destroy e + 1" by simp
  from er show "it = advance (begin_it v') i" by simp
  from er show "Capacity v' = Capacity v" by simp
  from es show "load (cells (data v')) (size_v v - 1) = None" by simp
  from es show "drop (size_v v) (cells (data v')) = drop (size_v v) (cells (data v))" by simp
  from es show "well_formed v'" by simp
qed

theorem Erase_removes_one_element_witness:
  "well_formed (vec_of 7 6 [1, 2, 3, 4, 5::int]) \<and>
   Erase int_type env0 (vec_of 7 6 [1, 2, 3, 4, 5::int]) (7, 1) =
     Returns (7, 1) (env0\<lparr>n_assign := 3, n_destroy := 1\<rparr>, vec_of 7 6 [1, 3, 4, 5]) \<and>
   elements (vec_of 7 6 [1, 3, 4, 5::int]) =
     take 1 (elements (vec_of 7 6 [1, 2, 3, 4, 5])) @
     drop (Suc 1) (elements (vec_of 7 6 [1, 2, 3, 4, 5])) \<and>
   n_assign (env0\<lparr>n_assign := 3, n_destroy := 1\<rparr>) =
     n_assign env0 + (size_v (vec_of 7 6 [1, 2, 3, 4, 5::int]) - 1 - 1) \<and>
   n_destroy (env0\<lparr>n_assign := 3, n_destroy := 1\<rparr>) = n_destroy env0 + 1 \<and>
   load (cells (data (vec_of 7 6 [1, 3, 4, 5::int]))) (size_v (vec_of 7 6 [1, 2, 3, 4, 5::int]) - 1) =
     None \<and>
   cells (data (vec_of 7 6 [1, 3, 4, 5::int])) = [Some 1, Some 3, Some 4, Some 5, None, None]"
proof -
  have w: "well_formed (vec_of 7 6 [1, 2, 3, 4, 5::int])"
    by (simp add: well_formed_def vec_of_def)
  have p: "(7, 1) = advance (begin_it (vec_of 7 6 [1, 2, 3, 4, 5::int])) 1"
    by (simp add: advance_def begin_it_def vec_of_def)
  have i: "1 < size_v (vec_of 7 6 [1, 2, 3, 4, 5::int])"
    by (simp add: vec_of_def)
  have r: "Erase int_type env0 (vec_of 7 6 [1, 2, 3, 4, 5::int]) (7, 1) =
     Returns (7, 1) (env0\<lparr>n_assign := 3, n_destroy := 1\<rparr>, vec_of 7 6 [1, 3, 4, 5])"
    by code_simp
  have c: "cells (data (vec_of 7 6 [1, 3, 4, 5::int])) =
             [Some 1, Some 3, Some 4, Some 5, None, None]"
    by code_simp
  from Erase_removes_one_element [OF w p i, of int_type env0]
  have "\<forall>it e' v'. Erase int_type env0 (vec_of 7 6 [1, 2, 3, 4, 5::int]) (7, 1) = Returns it (e', v') \<longrightarrow>
            size_v v' = size_v (vec_of 7 6 [1, 2, 3, 4, 5::int]) - 1 \<and>
            elements v' = take 1 (elements (vec_of 7 6 [1, 2, 3, 4, 5])) @
               drop (Suc 1) (elements (vec_of 7 6 [1, 2, 3, 4, 5])) \<and>
            n_assign e' = n_assign env0 + (size_v (vec_of 7 6 [1, 2, 3, 4, 5::int]) - 1 - 1) \<and>
            n_destroy e' = n_destroy env0 + 1 \<and>
            it = advance (begin_it v') 1 \<and> Capacity v' = Capacity (vec_of 7 6 [1, 2, 3, 4, 5::int]) \<and>
            load (cells (data v')) (size_v (vec_of 7 6 [1, 2, 3, 4, 5::int]) - 1) = None \<and>
            drop (size_v (vec_of 7 6 [1, 2, 3, 4, 5::int])) (cells (data v')) =
              drop (size_v (vec_of 7 6 [1, 2, 3, 4, 5::int]))
                (cells (data (vec_of 7 6 [1, 2, 3, 4, 5::int]))) \<and>
            well_formed v'"
    by (elim conjE)
  from this [rule_format, OF r] w r c show ?thesis by (intro conjI) (elim conjE, assumption)+
qed

section \<open>The invariant size \<open>\<le>\<close> capacity\<close>

lemma leaves_simps [simp]:
  "leaves P (Returns x s) = P s"
  "leaves P (Throws err s) = P s"
  "leaves P Undefined = True"
  by (simp_all add: leaves_def)

lemma RawMemory_sized_capacity:
  "RawMemory_sized e n = (Some m, e1) \<Longrightarrow> capacity m = n"
  by (auto simp: RawMemory_sized_def split: if_splits prod.splits)

lemma within_capacity_set_cells [simp]:
  "within_capacity (set_cells v cs) = within_capacity v"
  by (simp add: within_capacity_def)

lemma Vector_sized_within:
  "Vector_sized T e n = Returns v e' \<Longrightarrow> within_capacity v"
  by (auto simp: Vector_sized_def within_capacity_def dest!: RawMemory_sized_capacity
      split: prod.splits option.splits outcome.splits)

lemma Vector_copy_within:
  "Vector_copy e other = Returns v e' \<Longrightarrow> within_capacity v"
  by (auto simp: Vector_copy_def within_capacity_def dest!: RawMemory_sized_capacity
      split: prod.splits option.splits outcome.splits)

lemma Reserve_within:
  assumes "within_capacity v"
  shows "leaves (\<lambda>(e', v'). within_capacity v' \<and> size_v v' = size_v v) (Reserve T e v n)"
  using assms
  by (auto simp: Reserve_def within_capacity_def dest!: RawMemory_sized_capacity
      split: prod.splits option.splits outcome.splits)

lemma Reserve_Returns_capacity:
  "Reserve T e v n = Returns u (e', v') \<Longrightarrow> n \<le> capacity (data v') \<and> size_v v' = size_v v"
  by (auto simp: Reserve_def dest!: RawMemory_sized_capacity
      split: if_splits prod.splits option.splits outcome.splits)

lemma Resize_within:
  assumes "within_capacity v"
  shows "leaves (\<lambda>(e', v'). within_capacity v') (Resize T e v n)"
proof (cases "Reserve T e v n")
  case (Returns u s)
  obtain e1 v1 where s: "s = (e1, v1)" by (cases s)
  from Reserve_Returns_capacity [of T e v n u e1 v1] Returns s
  have "n \<le> capacity (data v1)" "size_v v1 = size_v v" by auto
  with Returns s assms show ?thesis
    by (auto simp: Resize_def within_capacity_def split: prod.splits outcome.splits)
next
  case (Throws err s)
  with Reserve_within [OF assms, of T e n] assms show ?thesis
    by (auto simp: Resize_def within_capacity_def split: prod.splits outcome.splits)
next
  case Undefined
  with assms show ?thesis
    by (auto simp: Resize_def within_capacity_def split: prod.splits outcome.splits)
qed

lemma EmplaceBack_within:
  assumes "within_capacity v"
  shows "leaves (\<lambda>(e', v'). within_capacity v') (EmplaceBack T e v a)"
  using assms
  by (cases "size_v v = Capacity v")
     (auto simp: EmplaceBack_def within_capacity_def Capacity_def dest!: RawMemory_sized_capacity
      split: prod.splits option.splits outcome.splits)

lemma leaves_result_state [simp]: "leaves P (result_state r) = leaves P r"
  by (cases r) simp_all

lemma PushBack_within:
  assumes "within_capacity v"
  shows "leaves (\<lambda>(e', v'). within_capacity v') (PushBack T e v x)"
  using EmplaceBack_within [OF assms, of T e "CopyOf x"]
  by (simp add: PushBack_as_EmplaceBack)

lemma PushBack_rv_within:
  assumes "within_capacity v"
  shows "leaves (\<lambda>(e', v'). within_capacity v') (PushBack_rv T e v x)"
proof (cases "size_v v = Capacity v")
  case False
  with assms show ?thesis
    by (auto simp: PushBack_rv_def within_capacity_def Capacity_def
        split: prod.splits outcome.splits)
next
  case full: True
  obtain m e1 where a: "(RawMemory_sized e (if size_v v = 0 then 1 else size_v v * 2)
        :: 'a raw_memory option \<times> env) = (m, e1)"
    by (cases "RawMemory_sized e (if size_v v = 0 then 1 else size_v v * 2)
        :: 'a raw_memory option \<times> env")
  show ?thesis
  proof (cases m)
    case None
    with full a assms show ?thesis by (simp add: PushBack_rv_def)
  next
    case (Some nd)
    with a have "capacity nd = (if size_v v = 0 then 1 else size_v v * 2)"
      by (simp add: RawMemory_sized_capacity)
    then have c: "size_v v + 1 \<le> capacity nd" by (simp split: if_splits)
    show ?thesis
    proof (cases "nothrow_move_constructible T \<or> \<not> copy_constructible T")
      case True
      with full a Some assms c show ?thesis
        by (auto simp: PushBack_rv_def within_capacity_def split: prod.splits outcome.splits)
    next
      case False
      with full a Some assms c show ?thesis
        by (auto simp: PushBack_rv_def within_capacity_def split: prod.splits outcome.splits)
    qed
  qed
qed

lemma PopBack_within:
  assumes "within_capacity v"
  shows "leaves (\<lambda>(e', v'). within_capacity v') (PopBack e v)"
  using assms
  by (auto simp: PopBack_def within_capacity_def Destroy_def)

lemma EmplaceWithReallocate_within:
  assumes "within_capacity v"
  shows "leaves (\<lambda>(e', v'). within_capacity v') (EmplaceWithReallocate T e v pos a)"
  using assms
  by (auto simp: EmplaceWithReallocate_def within_capacity_def Destroy_def
      dest!: RawMemory_sized_capacity
      split: prod.splits option.splits outcome.splits)

lemma EmplaceWithoutReallocate_within:
  assumes "within_capacity v" and "size_v v \<noteq> Capacity v"
  shows "leaves (\<lambda>(e', v'). within_capacity v') (EmplaceWithoutReallocate T e v pos a)"
  using assms
  by (auto simp: EmplaceWithoutReallocate_def within_capacity_def Capacity_def
      split: prod.splits option.splits outcome.splits)

lemma Emplace_within:
  assumes "within_capacity v"
  shows "leaves (\<lambda>(e', v'). within_capacity v') (Emplace T e v pos a)"
  using EmplaceBack_within [OF assms, of T e a] EmplaceWithReallocate_within [OF assms, of T e pos a]
    EmplaceWithoutReallocate_within [OF assms, of T e pos a]
  by (simp add: Emplace_def)

lemma Erase_within:
  assumes "within_capacity v"
  shows "leaves (\<lambda>(e', v'). within_capacity v') (Erase T e v pos)"
  using assms
  by (auto simp: Erase_def within_capacity_def Destroy_def
      split: prod.splits option.splits outcome.splits)

lemma copy_assign_body_within:
  assumes "within_capacity v"
  shows "leaves (\<lambda>(e', v'). within_capacity v') (copy_assign_body e v rhs)"
proof (cases "size_v rhs > capacity (data v)")
  case True
  with assms Vector_copy_within [of e rhs] show ?thesis
    by (auto simp: copy_assign_body_def Swap_def within_capacity_def
        split: prod.splits outcome.splits)
next
  case False
  with assms show ?thesis
    by (auto simp: copy_assign_body_def within_capacity_def
        split: prod.splits outcome.splits)
qed

lemma on_object_within:
  assumes "all_within_capacity st"
    and "\<And>e v. within_capacity v \<Longrightarrow> leaves (\<lambda>(e', v'). within_capacity v') (f e v)"
  shows "leaves (\<lambda>(e', st'). all_within_capacity st') (on_object (e, st) p f)"
proof (cases "st p")
  case None
  then show ?thesis by (simp add: on_object_def)
next
  case (Some v)
  with assms(1) have "within_capacity v" by (auto simp: all_within_capacity_def)
  from assms(2) [OF this, of e] Some assms(1) show ?thesis
    by (cases "f e v") (auto simp: on_object_def all_within_capacity_def)
qed

lemma new_object_within:
  assumes "all_within_capacity st"
    and "\<And>e v e'. ctor e = Returns v e' \<Longrightarrow> within_capacity v"
  shows "leaves (\<lambda>(e', st'). all_within_capacity st') (new_object (e, st) p ctor)"
  using assms
  by (cases "ctor e") (auto simp: new_object_def all_within_capacity_def split: option.splits)

lemma copy_assign_within:
  assumes "all_within_capacity st"
  shows "leaves (\<lambda>(e', st'). all_within_capacity st') (copy_assign (e, st) p q)"
proof (cases "st p")
  case None
  then show ?thesis by (simp add: copy_assign_def)
next
  case (Some v)
  with assms have w: "within_capacity v" by (auto simp: all_within_capacity_def)
  show ?thesis
  proof (cases "st q")
    case None
    with Some show ?thesis by (simp add: copy_assign_def)
  next
    case r: (Some r)
    from copy_assign_body_within [OF w, of e r] Some r assms show ?thesis
      by (cases "copy_assign_body e v r") (auto simp: copy_assign_def all_within_capacity_def)
  qed
qed

lemma move_assign_within:
  assumes "all_within_capacity st"
  shows "leaves (\<lambda>(e', st'). all_within_capacity st') (move_assign (e, st) p q)"
  using assms
  by (auto simp: move_assign_def move_assign_body_def all_within_capacity_def within_capacity_def
      split: option.splits)

lemma move_construct_at_within:
  assumes "all_within_capacity st"
  shows "leaves (\<lambda>(e', st'). all_within_capacity st') (move_construct_at (e, st) p q)"
  using assms
  by (auto simp: move_construct_at_def Vector_move_def all_within_capacity_def within_capacity_def
      split: option.splits)

lemma swap_objects_within:
  assumes "all_within_capacity st"
  shows "leaves (\<lambda>(e', st'). all_within_capacity st') (swap_objects (e, st) p q)"
  using assms
  by (auto simp: swap_objects_def Swap_def all_within_capacity_def within_capacity_def
      split: option.splits)

lemma exec_within:
  assumes "all_within_capacity st"
  shows "leaves (\<lambda>(e', st'). all_within_capacity st') (exec T c (e, st))"
proof (cases c)
  case (NewDefault p)
  have "leaves (\<lambda>(e', st'). all_within_capacity st')
          (new_object (e, st) p (\<lambda>e. Returns Vector_default e))"
    by (rule new_object_within [OF assms])
       (simp add: within_capacity_def Vector_default_def RawMemory_default_def)
  with NewDefault show ?thesis by simp
next
  case (NewSized p n)
  have "leaves (\<lambda>(e', st'). all_within_capacity st')
          (new_object (e, st) p (\<lambda>e. Vector_sized T e n))"
    by (rule new_object_within [OF assms]) (rule Vector_sized_within)
  with NewSized show ?thesis by simp
next
  case (NewCopy p q)
  have "leaves (\<lambda>(e', st'). all_within_capacity st')
          (new_object (e, st) p (\<lambda>e. Vector_copy e r))" for r
    by (rule new_object_within [OF assms]) (rule Vector_copy_within)
  with NewCopy show ?thesis by (simp split: option.splits)
next
  case (NewMove p q)
  then show ?thesis using move_construct_at_within [OF assms] by simp
next
  case (CallReserve p n)
  have "leaves (\<lambda>(e', v'). within_capacity v') (Reserve T e v n)" if "within_capacity v" for e v
    using Reserve_within [OF that, of T e n] by (cases "Reserve T e v n") auto
  then have "leaves (\<lambda>(e', st'). all_within_capacity st')
          (on_object (e, st) p (\<lambda>e v. Reserve T e v n))"
    by (rule on_object_within [OF assms])
  with CallReserve show ?thesis by simp
next
  case (CallResize p n)
  have "leaves (\<lambda>(e', st'). all_within_capacity st')
          (on_object (e, st) p (\<lambda>e v. Resize T e v n))"
    by (rule on_object_within [OF assms]) (rule Resize_within)
  with CallResize show ?thesis by simp
next
  case (CallPushBack p x)
  have "leaves (\<lambda>(e', st'). all_within_capacity st')
          (on_object (e, st) p (\<lambda>e v. PushBack T e v x))"
    by (rule on_object_within [OF assms]) (rule PushBack_within)
  with CallPushBack show ?thesis by simp
next
  case (CallPushBack_rv p x)
  have "leaves (\<lambda>(e', st'). all_within_capacity st')
          (on_object (e, st) p (\<lambda>e v. PushBack_rv T e v x))"
    by (rule on_object_within [OF assms]) (rule PushBack_rv_within)
  with CallPushBack_rv show ?thesis by simp
next
  case (CallPopBack p)
  have "leaves (\<lambda>(e', st'). all_within_capacity st') (on_object (e, st) p PopBack)"
    by (rule on_object_within [OF assms]) (rule PopBack_within)
  with CallPopBack show ?thesis by simp
next
  case (CallEmplaceBack p a)
  have "leaves (\<lambda>(e', st'). all_within_capacity st')
          (on_object (e, st) p (\<lambda>e v. EmplaceBack T e v a))"
    by (rule on_object_within [OF assms]) (rule EmplaceBack_within)
  with CallEmplaceBack show ?thesis by simp
next
  case (CallEmplace p pos a)
  have "leaves (\<lambda>(e', st'). all_within_capacity st')
          (on_object (e, st) p (\<lambda>e v. Emplace T e v pos a))"
    by (rule on_object_within [OF assms]) (rule Emplace_within)
  with CallEmplace show ?thesis by simp
next
  case (CallInsert p pos x)
  have "leaves (\<lambda>(e', st'). all_within_capacity st')
          (on_object (e, st) p (\<lambda>e v. Emplace T e v pos (CopyOf x)))"
    by (rule on_object_within [OF assms]) (rule Emplace_within)
  with CallInsert show ?thesis by (simp add: Insert_def)
next
  case (CallInsert_rv p pos x)
  have "leaves (\<lambda>(e', st'). all_within_capacity st')
          (on_object (e, st) p (\<lambda>e v. Emplace T e v pos (MoveOf x)))"
    by (rule on_object_within [OF assms]) (rule Emplace_within)
  with CallInsert_rv show ?thesis by (simp add: Insert_rv_def)
next
  case (CallErase p pos)
  have "leaves (\<lambda>(e', st'). all_within_capacity st')
          (on_object (e, st) p (\<lambda>e v. Erase T e v pos))"
    by (rule on_object_within [OF assms]) (rule Erase_within)
  with CallErase show ?thesis by simp
next
  case (CallCopyAssign p q)
  then show ?thesis using copy_assign_within [OF assms] by simp
next
  case (CallMoveAssign p q)
  then show ?thesis using move_assign_within [OF assms] by simp
next
  case (CallSwap p q)
  then show ?thesis using swap_objects_within [OF assms] by simp
qed

lemma run_within:
  "all_within_capacity st \<Longrightarrow> run T prog (e, st) = Some (e', st') \<Longrightarrow> all_within_capacity st'"
proof (induction prog arbitrary: e st)
  case Nil
  then show ?case by simp
next
  case (Cons c cs)
  from exec_within [OF Cons.prems(1), of T c e] Cons.prems(2) Cons.IH show ?case
    by (cases "exec T c (e, st)") auto
qed

text \<open>
  Claim C2. For every program over the public interface (the constructors, \<^verbatim>\<open>Reserve\<close>,
  \<^verbatim>\<open>Resize\<close>, \<^verbatim>\<open>PushBack\<close>, \<^verbatim>\<open>EmplaceBack\<close>, \<^verbatim>\<open>PopBack\<close>, \<^verbatim>\<open>Insert\<close>, \<^verbatim>\<open>Emplace\<close>, \<^verbatim>\<open>Erase\<close>,
  the two assignments and \<^verbatim>\<open>Swap\<close>) started with no objects, in every environment and for
  every element type: after each call, whether it returned or threw, every container of
  the store has \<open>0 \<le> size \<le> capacity\<close>. (\<open>run\<close> goes on after a call that throws, with the
  state that call left, so the states after an error are among those the theorem covers.)
\<close>

theorem size_within_capacity_invariant:
  assumes "run T prog (e, Map.empty) = Some (e', st)" and "st p = Some v"
  shows "0 \<le> Size v \<and> Size v \<le> Capacity v"
proof -
  have "all_within_capacity (Map.empty :: 'a store)" by (simp add: all_within_capacity_def)
  from run_within [OF this assms(1)] assms(2) show ?thesis
    by (simp add: all_within_capacity_def within_capacity_def Size_def Capacity_def)
qed

text \<open>
  A program whose third call throws \<^verbatim>\<open>std::bad_alloc\<close> and whose fourth call repeats it
  with success.
\<close>

theorem size_within_capacity_invariant_witness:
  "map_option (\<lambda>s. snd s 0)
       (run throwing_string_type
          [NewDefault 0, CallPushBack 0 ''a'', CallPushBack 0 ''b'', CallPushBack 0 ''b'']
          (env0\<lparr>faults := [False, False, True]\<rparr>, Map.empty)) =
     Some (Some (vec_of 2 2 [''a'', ''b''])) \<and>
   exec throwing_string_type (CallPushBack 0 ''b'')
       (env0\<lparr>faults := [True], next_block := 1, n_copy := 1\<rparr>, [0 \<mapsto> vec_of 1 1 [''a'']]) =
     Throws BadAlloc (env0\<lparr>next_block := 1, n_copy := 1\<rparr>, [0 \<mapsto> vec_of 1 1 [''a'']]) \<and>
   0 \<le> Size (vec_of 2 2 [''a'', ''b'']) \<and>
   Size (vec_of 2 2 [''a'', ''b'']) \<le> Capacity (vec_of 2 2 [''a'', ''b''])"
proof -
  have a: "map_option (\<lambda>s. snd s 0)
       (run throwing_string_type
          [NewDefault 0, CallPushBack 0 ''a'', CallPushBack 0 ''b'', CallPushBack 0 ''b'']
          (env0\<lparr>faults := [False, False, True]\<rparr>, Map.empty)) =
     Some (Some (vec_of 2 2 [''a'', ''b'']))"
    by code_simp
  then obtain e' st where
    r: "run throwing_string_type
          [NewDefault 0, CallPushBack 0 ''a'', CallPushBack 0 ''b'', CallPushBack 0 ''b'']
          (env0\<lparr>faults := [False, False, True]\<rparr>, Map.empty) = Some (e', st)" and
    s: "st 0 = Some (vec_of 2 2 [''a'', ''b''])"
    by (cases "run throwing_string_type
          [NewDefault 0, CallPushBack 0 ''a'', CallPushBack 0 ''b'', CallPushBack 0 ''b'']
          (env0\<lparr>faults := [False, False, True]\<rparr>, Map.empty)") auto
  have c: "exec throwing_string_type (CallPushBack 0 ''b'')
       (env0\<lparr>faults := [True], next_block := 1, n_copy := 1\<rparr>, [0 \<mapsto> vec_of 1 1 [''a'']]) =
     Throws BadAlloc (env0\<lparr>next_block := 1, n_copy := 1\<rparr>, [0 \<mapsto> vec_of 1 1 [''a'']])"
    by (simp add: on_object_def PushBack_def Capacity_def vec_of_def RawMemory_sized_def
        fault_def env0_def)
  from size_within_capacity_invariant [OF r s] a c show ?thesis by simp
qed

section \<open>Growth of the capacity\<close>

lemma RawMemory_sized_Some:
  "RawMemory_sized e n = (Some m, e1) \<Longrightarrow>
     capacity m = n \<and> length (cells m) = n \<and> (\<forall>j<n. cells m ! j = None) \<and>
     (0 < n \<longrightarrow> buffer m = Suc (next_block e))"
  by (auto simp: RawMemory_sized_def fault_def split: if_splits prod.splits list.splits)

lemma EmplaceBack_Returns_capacity:
  assumes "EmplaceBack T e v a = Returns it (e', v')"
  shows "Capacity v' = (if size_v v = Capacity v then max 1 (Capacity v * 2) else Capacity v) \<and>
         (size_v v = Capacity v \<longrightarrow> buffer (data v') = Suc (next_block e))"
proof (cases "size_v v = Capacity v")
  case False
  with assms show ?thesis
    by (auto simp: EmplaceBack_def Capacity_def split: outcome.splits prod.splits)
next
  case True
  with assms obtain new_data :: "'a raw_memory" and e1 dst where
    a: "RawMemory_sized e (if size_v v = 0 then 1 else size_v v * 2) = (Some new_data, e1)" and
    v': "v' = \<lparr>data = new_data\<lparr>cells := dst\<rparr>, size_v = size_v v + 1\<rparr>"
    by (auto simp: EmplaceBack_def split: outcome.splits prod.splits option.splits)
  from RawMemory_sized_Some [OF a] v' True show ?thesis
    by (auto simp: Capacity_def)
qed

lemma PushBack_Returns_capacity:
  assumes "PushBack T e v x = Returns u (e', v')"
  shows "Capacity v' = (if size_v v = Capacity v then max 1 (Capacity v * 2) else Capacity v) \<and>
         (size_v v = Capacity v \<longrightarrow> buffer (data v') = Suc (next_block e)) \<and>
         size_v v' = size_v v + 1"
proof -
  from assms obtain it where r: "EmplaceBack T e v (CopyOf x) = Returns it (e', v')"
    by (cases "EmplaceBack T e v (CopyOf x)") (auto simp: PushBack_as_EmplaceBack)
  from EmplaceBack_Returns_capacity [OF r] EmplaceBack_Returns [OF r] show ?thesis by simp
qed

lemma PushBack_rv_Returns_capacity:
  assumes "PushBack_rv T e v x = Returns u (e', v')"
  shows "Capacity v' = (if size_v v = Capacity v then max 1 (Capacity v * 2) else Capacity v) \<and>
         (size_v v = Capacity v \<longrightarrow> buffer (data v') = Suc (next_block e))"
proof (cases "size_v v = Capacity v")
  case False
  with assms show ?thesis
    by (auto simp: PushBack_rv_def Capacity_def split: outcome.splits prod.splits)
next
  case True
  with assms obtain new_data :: "'a raw_memory" and e1 dst where
    a: "RawMemory_sized e (if size_v v = 0 then 1 else size_v v * 2) = (Some new_data, e1)" and
    v': "v' = \<lparr>data = new_data\<lparr>cells := dst\<rparr>, size_v = size_v v + 1\<rparr>"
    by (auto simp: PushBack_rv_def split: outcome.splits prod.splits option.splits if_splits)
  from RawMemory_sized_Some [OF a] v' True show ?thesis
    by (auto simp: Capacity_def)
qed

lemma PushBack_seq_Cons_Returns:
  assumes "PushBack_seq T e v (x # xs) = Returns caps (e', v')"
  obtains u e1 v1 caps1 where "PushBack T e v x = Returns u (e1, v1)"
    and "PushBack_seq T e1 v1 xs = Returns caps1 (e', v')"
    and "caps = (if Capacity v1 \<noteq> Capacity v then [Capacity v1] else []) @ caps1"
  using assms by (auto split: outcome.splits prod.splits)

lemma upt_Suc_Cons: "k \<le> k' \<Longrightarrow> [k..<Suc k'] = k # [Suc k..<Suc k']"
  by (rule upt_conv_Cons) simp

lemma PushBack_seq_from:
  assumes "PushBack_seq T e v xs = Returns caps (e', v')"
    and "Capacity v = 2 ^ k" and "size_v v \<le> 2 ^ k" and "k = 0 \<or> 2 ^ (k - 1) < size_v v"
  shows "\<exists>k'. k \<le> k' \<and> caps = map (\<lambda>i. 2 ^ i) [Suc k..<Suc k'] \<and> Capacity v' = 2 ^ k' \<and>
           size_v v' = size_v v + length xs \<and> size_v v' \<le> 2 ^ k' \<and>
           (k' = 0 \<or> 2 ^ (k' - 1) < size_v v')"
  using assms
proof (induction xs arbitrary: e v k caps)
  case Nil
  then show ?case by auto
next
  case (Cons x xs)
  from Cons.prems(1) obtain u e1 v1 caps1 where
    p: "PushBack T e v x = Returns u (e1, v1)" and
    r: "PushBack_seq T e1 v1 xs = Returns caps1 (e', v')" and
    c: "caps = (if Capacity v1 \<noteq> Capacity v then [Capacity v1] else []) @ caps1"
    by (rule PushBack_seq_Cons_Returns)
  note pc = PushBack_Returns_capacity [OF p]
  show ?case
  proof (cases "size_v v = Capacity v")
    case True
    with pc Cons.prems(2) have c1: "Capacity v1 = 2 ^ Suc k" and s1: "size_v v1 = 2 ^ k + 1"
      by auto
    have "size_v v1 \<le> 2 ^ Suc k" using s1 by simp
    moreover have "Suc k = 0 \<or> (2::nat) ^ (Suc k - 1) < size_v v1" using s1 by simp
    ultimately obtain k' where k': "Suc k \<le> k'" "caps1 = map (\<lambda>i. 2 ^ i) [Suc (Suc k)..<Suc k']"
      "Capacity v' = 2 ^ k'" "size_v v' = size_v v1 + length xs" "size_v v' \<le> 2 ^ k'"
      "k' = 0 \<or> 2 ^ (k' - 1) < size_v v'"
      using Cons.IH [OF r c1] by blast
    have "caps = 2 ^ Suc k # caps1" using c c1 Cons.prems(2) by simp
    also have "\<dots> = map (\<lambda>i. 2 ^ i) [Suc k..<Suc k']"
      using k'(2) upt_Suc_Cons [OF k'(1)] by (simp del: upt_Suc)
    finally show ?thesis using k' pc by (intro exI [of _ k']) auto
  next
    case False
    with pc have c1: "Capacity v1 = 2 ^ k" and s1: "size_v v1 = size_v v + 1"
      using Cons.prems(2) by auto
    have "size_v v1 \<le> 2 ^ k" using s1 False Cons.prems(2,3) by simp
    moreover have "k = 0 \<or> (2::nat) ^ (k - 1) < size_v v1" using s1 Cons.prems(4) by auto
    ultimately obtain k' where k': "k \<le> k'" "caps1 = map (\<lambda>i. 2 ^ i) [Suc k..<Suc k']"
      "Capacity v' = 2 ^ k'" "size_v v' = size_v v1 + length xs" "size_v v' \<le> 2 ^ k'"
      "k' = 0 \<or> 2 ^ (k' - 1) < size_v v'"
      using Cons.IH [OF r c1] by blast
    have "caps = caps1" using c c1 Cons.prems(2) by simp
    with k' s1 show ?thesis by (intro exI [of _ k']) auto
  qed
qed

lemma PushBack_seq_from_empty:
  assumes "PushBack_seq T e Vector_default xs = Returns caps (e', v')" and "xs \<noteq> []"
  shows "\<exists>k. caps = map (\<lambda>i. 2 ^ i) [0..<Suc k] \<and> Capacity v' = 2 ^ k \<and>
           Size v' = length xs \<and> length xs \<le> 2 ^ k \<and> (\<forall>j<k. 2 ^ j < length xs)"
proof -
  from assms(2) obtain x ys where xs: "xs = x # ys" by (cases xs) auto
  have d: "size_v (Vector_default :: 'a vector) = 0" "Capacity (Vector_default :: 'a vector) = 0"
    by (simp_all add: Vector_default_def RawMemory_default_def Capacity_def)
  from assms(1) have "PushBack_seq T e Vector_default (x # ys) = Returns caps (e', v')"
    by (simp only: xs)
  then obtain u e1 v1 caps1 where
    p: "PushBack T e Vector_default x = Returns u (e1, v1)" and
    r: "PushBack_seq T e1 v1 ys = Returns caps1 (e', v')" and
    c: "caps = (if Capacity v1 \<noteq> Capacity (Vector_default :: 'a vector) then [Capacity v1] else []) @ caps1"
    by (rule PushBack_seq_Cons_Returns)
  from PushBack_Returns_capacity [OF p] d have c1: "Capacity v1 = 2 ^ 0" and s1: "size_v v1 = 1"
    by auto
  have h1: "size_v v1 \<le> 2 ^ 0" using s1 by simp
  have h2: "(0::nat) = 0 \<or> 2 ^ (0 - 1) < size_v v1" by simp
  from PushBack_seq_from [OF r c1 h1 h2] obtain k where
    k0: "caps1 = map (\<lambda>i. 2 ^ i) [Suc 0..<Suc k]" "Capacity v' = 2 ^ k"
      "size_v v' = size_v v1 + length ys" "size_v v' \<le> 2 ^ k" "k = 0 \<or> 2 ^ (k - 1) < size_v v'"
    by blast
  note k = k0(1,2) k0(3) [unfolded s1] k0(4,5)
  have "caps = 2 ^ 0 # caps1" using c c1 d by simp
  also have "\<dots> = map (\<lambda>i. 2 ^ i) [0..<Suc k]"
    using k(1) upt_Suc_Cons [of 0 k] by (simp del: upt_Suc)
  finally have caps: "caps = map (\<lambda>i. 2 ^ i) [0..<Suc k]" .
  have "\<forall>j<k. (2::nat) ^ j < length xs"
  proof (intro allI impI)
    fix j assume j: "j < k"
    then have "(2::nat) ^ j \<le> 2 ^ (k - 1)" by (intro power_increasing) auto
    also from j k(5) have "\<dots> < size_v v'" by auto
    finally show "2 ^ j < length xs" using k(3) xs by simp
  qed
  with caps k xs show ?thesis by (intro exI [of _ k]) (auto simp: Size_def)
qed

text \<open>When no failure is scheduled, the constructors, the relocation and the calls return.\<close>

lemma copy_construct_no_failure:
  assumes "True \<notin> set (faults e)"
  shows "\<exists>e1. copy_construct e x = (Some x, e1) \<and> True \<notin> set (faults e1)"
  using assms by (auto simp: copy_construct_def fault_def split: list.splits)

lemma move_construct_no_failure:
  assumes "True \<notin> set (faults e)"
  shows "\<exists>e1. move_construct T e x = (Some (x, moved_from T x), e1) \<and> True \<notin> set (faults e1)"
  using assms by (auto simp: move_construct_def fault_def split: list.splits)

lemma construct_from_no_failure:
  assumes "True \<notin> set (faults e)"
  shows "\<exists>e1. construct_from T e a = (Some (value_of a), e1) \<and> True \<notin> set (faults e1)"
proof (cases a)
  case (CopyOf x)
  with copy_construct_no_failure [OF assms, of x] show ?thesis by auto
next
  case (MoveOf x)
  with move_construct_no_failure [OF assms, of T x] show ?thesis by auto
next
  case (Args x)
  with assms show ?thesis by (auto simp: construct_def fault_def split: list.splits)
qed

lemma destroy_n_faults: "destroy_n e cs first n = (e', cs') \<Longrightarrow> faults e' = faults e"
  by (induction n arbitrary: e cs first) auto

lemma uninit_copy_loop_no_failure:
  assumes "True \<notin> set (faults e)"
    and "\<forall>j<n. first + j < length src \<and> src ! (first + j) \<noteq> None"
    and "cur + n \<le> length dst"
  shows "\<exists>e' dst'. uninit_copy_loop e src first n dst cur = Returns () (e', dst', cur + n) \<and>
           True \<notin> set (faults e') \<and> (\<forall>j<n. dst' ! (cur + j) = src ! (first + j))"
  using assms
proof (induction n arbitrary: e first dst cur)
  case 0
  then show ?case by simp
next
  case (Suc n)
  from Suc.prems(2) have "first < length src" "src ! first \<noteq> None" by force+
  then obtain x where lx: "load src first = Some x" "src ! first = Some x"
    by (auto simp: load_def)
  from copy_construct_no_failure [OF Suc.prems(1), of x] obtain e1 where
    cc: "copy_construct e x = (Some x, e1)" and f1: "True \<notin> set (faults e1)" by blast
  have p2: "\<forall>j<n. Suc first + j < length src \<and> src ! (Suc first + j) \<noteq> None"
    using Suc.prems(2) by (metis Suc_less_eq add_Suc_shift)
  have p3: "Suc cur + n \<le> length (dst[cur := Some x])" using Suc.prems(3) by simp
  from Suc.IH [OF f1 p2 p3] obtain e' dst' where
    r: "uninit_copy_loop e1 src (Suc first) n (dst[cur := Some x]) (Suc cur)
          = Returns () (e', dst', Suc cur + n)" and
    f': "True \<notin> set (faults e')" and
    vals: "\<forall>j<n. dst' ! (Suc cur + j) = src ! (Suc first + j)"
    by blast
  from uninit_copy_loop_frame [OF r] Suc.prems(3)
  have c0: "dst' ! cur = Some x" by simp
  have "\<forall>j<Suc n. dst' ! (cur + j) = src ! (first + j)"
  proof (intro allI impI)
    fix j assume "j < Suc n"
    then show "dst' ! (cur + j) = src ! (first + j)"
      using vals c0 lx(2) by (cases j) auto
  qed
  with r f' lx cc Suc.prems(3) show ?case by auto
qed

lemma uninit_move_loop_no_failure:
  assumes "True \<notin> set (faults e)"
    and "\<forall>j<n. first + j < length src \<and> src ! (first + j) \<noteq> None"
    and "cur + n \<le> length dst"
  shows "\<exists>e' src' dst'. uninit_move_loop T e src first n dst cur
             = Returns () (e', src', dst', cur + n) \<and>
           True \<notin> set (faults e') \<and> (\<forall>j<n. dst' ! (cur + j) = src ! (first + j))"
  using assms
proof (induction n arbitrary: e src first dst cur)
  case 0
  then show ?case by simp
next
  case (Suc n)
  from Suc.prems(2) have "first < length src" "src ! first \<noteq> None" by force+
  then obtain x where lx: "load src first = Some x" "src ! first = Some x"
    by (auto simp: load_def)
  from move_construct_no_failure [OF Suc.prems(1), of T x] obtain e1 where
    cc: "move_construct T e x = (Some (x, moved_from T x), e1)" and
    f1: "True \<notin> set (faults e1)" by blast
  let ?src = "src[first := Some (moved_from T x)]"
  have p2: "\<forall>j<n. Suc first + j < length ?src \<and> ?src ! (Suc first + j) \<noteq> None"
    using Suc.prems(2) by (metis Suc_less_eq add_Suc_shift length_list_update
        n_not_Suc_n nth_list_update_neq le_add1 not_less_eq_eq)
  have p3: "Suc cur + n \<le> length (dst[cur := Some x])" using Suc.prems(3) by simp
  from Suc.IH [OF f1 p2 p3] obtain e' src' dst' where
    r: "uninit_move_loop T e1 ?src (Suc first) n (dst[cur := Some x]) (Suc cur)
          = Returns () (e', src', dst', Suc cur + n)" and
    f': "True \<notin> set (faults e')" and
    vals: "\<forall>j<n. dst' ! (Suc cur + j) = ?src ! (Suc first + j)"
    by blast
  from uninit_move_loop_frame [OF r] Suc.prems(3)
  have c0: "dst' ! cur = Some x" by simp
  have "\<forall>j<Suc n. dst' ! (cur + j) = src ! (first + j)"
  proof (intro allI impI)
    fix j assume "j < Suc n"
    then show "dst' ! (cur + j) = src ! (first + j)"
      using vals c0 lx(2) by (cases j) auto
  qed
  with r f' lx cc Suc.prems(3) show ?case by auto
qed

lemma SafeMove_no_failure:
  assumes "True \<notin> set (faults e)"
    and "\<forall>j<n. first + j < length src \<and> src ! (first + j) \<noteq> None"
    and "result + n \<le> length dst"
  shows "\<exists>e' src' dst'. SafeMove T e src first n dst result = Returns () (e', src', dst') \<and>
           True \<notin> set (faults e') \<and> (\<forall>j<n. dst' ! (result + j) = src ! (first + j))"
proof (cases "nothrow_move_constructible T \<or> \<not> copy_constructible T")
  case True
  from uninit_move_loop_no_failure [OF assms, of T] obtain e1 src1 dst1 where
    r: "uninit_move_loop T e src first n dst result = Returns () (e1, src1, dst1, result + n)" and
    f: "True \<notin> set (faults e1)" and v: "\<forall>j<n. dst1 ! (result + j) = src ! (first + j)"
    by blast
  obtain e2 src2 where d: "destroy_n e1 src1 first n = (e2, src2)"
    by (cases "destroy_n e1 src1 first n")
  from destroy_n_faults [OF d] f have "True \<notin> set (faults e2)" by simp
  with True r d v show ?thesis
    by (simp add: SafeMove_def uninitialized_move_n_def)
next
  case False
  from uninit_copy_loop_no_failure [OF assms] obtain e1 dst1 where
    r: "uninit_copy_loop e src first n dst result = Returns () (e1, dst1, result + n)" and
    f: "True \<notin> set (faults e1)" and v: "\<forall>j<n. dst1 ! (result + j) = src ! (first + j)"
    by blast
  obtain e2 src2 where d: "destroy_n e1 src first n = (e2, src2)"
    by (cases "destroy_n e1 src first n")
  from destroy_n_faults [OF d] f have "True \<notin> set (faults e2)" by simp
  with False r d v show ?thesis
    by (simp add: SafeMove_def uninitialized_copy_n_def)
qed

lemma RawMemory_sized_no_failure:
  assumes "True \<notin> set (faults e)"
  shows "\<exists>m e1. RawMemory_sized e n = (Some m, e1) \<and> True \<notin> set (faults e1)"
  using assms
  by (auto simp: RawMemory_sized_def fault_def split: list.splits)

lemma construct_at_no_failure:
  assumes "True \<notin> set (faults e)" and "i < length cs"
  shows "\<exists>e1. construct_at T e cs i a = Returns () (e1, cs[i := Some (value_of a)]) \<and>
           True \<notin> set (faults e1)"
  using construct_from_no_failure [OF assms(1), of T a] assms(2)
  by (auto simp: construct_at_def)

lemma EmplaceBack_no_failure:
  assumes wf: "well_formed v" and nf: "True \<notin> set (faults e)"
  shows "\<exists>it e' v'. EmplaceBack T e v a = Returns it (e', v') \<and> True \<notin> set (faults e') \<and>
           well_formed v' \<and> elements v' = elements v @ [Some (value_of a)]"
proof (cases "size_v v = Capacity v")
  case False
  with wf have lt: "size_v v < length (cells (data v))"
    by (simp add: well_formed_def Capacity_def)
  from construct_at_no_failure [OF nf lt, of T a] obtain e1 where
    c: "construct_at T e (cells (data v)) (size_v v) a =
          Returns () (e1, (cells (data v))[size_v v := Some (value_of a)])" and
    f1: "True \<notin> set (faults e1)" by blast
  let ?v' = "(set_cells v ((cells (data v))[size_v v := Some (value_of a)]))\<lparr>size_v := size_v v + 1\<rparr>"
  have r: "EmplaceBack T e v a = Returns (buffer (data v), size_v v + 1 - 1) (e1, ?v')"
    using False c by (simp add: EmplaceBack_def)
  have w: "well_formed ?v'"
    using wf lt well_formed_live [OF wf]
    by (intro well_formed_intro) (auto simp: well_formed_def nth_list_update less_Suc_eq)
  have "elements ?v' = elements v @ [Some (value_of a)]"
    using lt by (auto simp: elements_def load_def nth_list_update intro!: nth_equalityI
        simp: nth_append less_Suc_eq)
  with r f1 w show ?thesis by blast
next
  case True
  let ?n = "if size_v v = 0 then 1 else size_v v * 2"
  from RawMemory_sized_no_failure [OF nf, of ?n] obtain new_data :: "'a raw_memory" and e1 where
    a: "RawMemory_sized e ?n = (Some new_data, e1)" and f1: "True \<notin> set (faults e1)"
    by blast
  note nd = RawMemory_sized_Some [OF a]
  have lt: "size_v v < length (cells new_data)" using nd by (auto split: if_splits)
  from construct_at_no_failure [OF f1 lt, of T a] obtain e2 where
    c: "construct_at T e1 (cells new_data) (size_v v) a =
          Returns () (e2, (cells new_data)[size_v v := Some (value_of a)])" and
    f2: "True \<notin> set (faults e2)" by blast
  let ?nd = "(cells new_data)[size_v v := Some (value_of a)]"
  have live: "\<forall>j<size_v v. 0 + j < length (cells (data v)) \<and> cells (data v) ! (0 + j) \<noteq> None"
    using well_formed_live [OF wf] by simp
  have room: "0 + size_v v \<le> length ?nd" using lt by simp
  from SafeMove_no_failure [OF f2 live room, of T] obtain e3 src dst where
    m: "SafeMove T e2 (cells (data v)) 0 (size_v v) ?nd 0 = Returns () (e3, src, dst)" and
    f3: "True \<notin> set (faults e3)" and
    vals: "\<forall>j<size_v v. dst ! (0 + j) = cells (data v) ! (0 + j)"
    by blast
  note fr = SafeMove_frame [OF m]
  let ?v' = "\<lparr>data = new_data\<lparr>cells := dst\<rparr>, size_v = size_v v + 1\<rparr>"
  have r: "EmplaceBack T e v a = Returns (buffer new_data, size_v v + 1 - 1) (e3, ?v')"
    using True a c m by (simp add: EmplaceBack_def)
  have last: "dst ! size_v v = Some (value_of a)" using fr lt by simp
  have w: "well_formed ?v'"
  proof (rule well_formed_intro)
    show "length (cells (data ?v')) = capacity (data ?v')" using fr nd by simp
    show "size_v ?v' \<le> capacity (data ?v')" using nd by (auto split: if_splits)
    show "\<forall>j<size_v ?v'. cells (data ?v') ! j \<noteq> None"
      using vals last well_formed_live [OF wf] by (auto simp: less_Suc_eq)
  qed
  have "elements ?v' = elements v @ [Some (value_of a)]"
  proof (rule nth_equalityI)
    show "length (elements ?v') = length (elements v @ [Some (value_of a)])" by simp
  next
    fix j assume "j < length (elements ?v')"
    then have j: "j < size_v v + 1" by simp
    have len: "size_v v < length dst" "size_v v \<le> length (cells (data v))"
      using fr lt wf by (auto simp: well_formed_def)
    show "elements ?v' ! j = (elements v @ [Some (value_of a)]) ! j"
    proof (cases "j < size_v v")
      case True
      with vals len show ?thesis by (simp add: elements_nth load_def nth_append)
    next
      case False
      with j have "j = size_v v" by simp
      with last len show ?thesis by (simp add: elements_nth load_def nth_append)
    qed
  qed
  with r f3 w show ?thesis by blast
qed

lemma PushBack_no_failure:
  assumes "well_formed v" and "True \<notin> set (faults e)"
  shows "\<exists>e' v'. PushBack T e v x = Returns () (e', v') \<and> True \<notin> set (faults e') \<and>
           well_formed v' \<and> elements v' = elements v @ [Some x]"
  using EmplaceBack_no_failure [OF assms, of T "CopyOf x"]
  by (auto simp: PushBack_as_EmplaceBack)

lemma PushBack_seq_no_failure:
  assumes "well_formed v" and "True \<notin> set (faults e)"
  shows "\<exists>caps e' v'. PushBack_seq T e v xs = Returns caps (e', v') \<and>
           elements v' = elements v @ map Some xs"
  using assms
proof (induction xs arbitrary: e v)
  case Nil
  then show ?case by simp
next
  case (Cons x xs)
  from PushBack_no_failure [OF Cons.prems, of T x] obtain e1 v1 where
    p: "PushBack T e v x = Returns () (e1, v1)" and f: "True \<notin> set (faults e1)" and
    w: "well_formed v1" and el: "elements v1 = elements v @ [Some x]"
    by blast
  from Cons.IH [OF w f] obtain caps e' v' where
    r: "PushBack_seq T e1 v1 xs = Returns caps (e', v')" and
    el': "elements v' = elements v1 @ map Some xs"
    by blast
  from p r el el' show ?case by simp
qed

lemma PushBack_rv_no_failure:
  assumes "well_formed v" and "True \<notin> set (faults e)"
  shows "\<exists>e' v'. PushBack_rv T e v x = Returns () (e', v') \<and> True \<notin> set (faults e') \<and>
           well_formed v' \<and> elements v' = elements v @ [Some x]"
proof -
  from EmplaceBack_no_failure [OF assms, of T "MoveOf x"] obtain it e' v' where
    r: "EmplaceBack T e v (MoveOf x) = Returns it (e', v')" and
    p: "True \<notin> set (faults e')" "well_formed v'" "elements v' = elements v @ [Some x]"
    by auto
  from EmplaceBack_MoveOf_Returns_move_ok [OF r]
  have "PushBack_rv T e v x = result_state (EmplaceBack T e v (MoveOf x))"
    by (intro PushBack_rv_as_EmplaceBack) simp
  with r p show ?thesis by simp
qed

text \<open>
  Claim C4. A \<^verbatim>\<open>PushBack\<close> (either overload) or \<^verbatim>\<open>EmplaceBack\<close> that finds
  \<open>size = capacity\<close> and returns leaves a container of capacity \<open>max 1 (capacity * 2)\<close> whose
  block is the one this call allocated; and on a well-formed container with no failure
  scheduled each of the three calls does return, having allocated that block, with the old
  elements followed by the new one. For every \<open>m \<ge> 1\<close> values pushed in sequence onto a
  default-constructed container: the \<open>m\<close> calls all return when no failure is scheduled; and
  whenever they all return, the capacities recorded at the growth points are exactly
  \<open>1, 2, 4, \<dots>, 2 ^ k\<close>, the final capacity is \<open>2 ^ k\<close>, and \<open>2 ^ k\<close> is the least power of two
  that is at least \<open>m\<close>.
\<close>

theorem PushBack_capacity_doubles:
  "(size_v v = Capacity v \<longrightarrow>
      (PushBack T e v x = Returns u (e', v') \<longrightarrow>
         Capacity v' = max 1 (Capacity v * 2) \<and> buffer (data v') = Suc (next_block e)) \<and>
      (PushBack_rv T e v x = Returns u (e', v') \<longrightarrow>
         Capacity v' = max 1 (Capacity v * 2) \<and> buffer (data v') = Suc (next_block e)) \<and>
      (EmplaceBack T e v a = Returns it (e', v') \<longrightarrow>
         Capacity v' = max 1 (Capacity v * 2) \<and> buffer (data v') = Suc (next_block e))) \<and>
   (size_v v = Capacity v \<and> well_formed v \<and> True \<notin> set (faults e) \<longrightarrow>
      (\<exists>e2 v2. PushBack T e v x = Returns () (e2, v2) \<and>
         Capacity v2 = max 1 (Capacity v * 2) \<and> buffer (data v2) = Suc (next_block e) \<and>
         elements v2 = elements v @ [Some x] \<and> well_formed v2) \<and>
      (\<exists>e2 v2. PushBack_rv T e v x = Returns () (e2, v2) \<and>
         Capacity v2 = max 1 (Capacity v * 2) \<and> buffer (data v2) = Suc (next_block e) \<and>
         elements v2 = elements v @ [Some x] \<and> well_formed v2) \<and>
      (\<exists>it2 e2 v2. EmplaceBack T e v a = Returns it2 (e2, v2) \<and>
         Capacity v2 = max 1 (Capacity v * 2) \<and> buffer (data v2) = Suc (next_block e) \<and>
         elements v2 = elements v @ [Some (value_of a)] \<and> well_formed v2)) \<and>
   (xs \<noteq> [] \<and> True \<notin> set (faults e) \<longrightarrow>
      (\<exists>caps e1 v1. PushBack_seq T e Vector_default xs = Returns caps (e1, v1))) \<and>
   (xs \<noteq> [] \<and> PushBack_seq T e Vector_default xs = Returns caps (e1, v1) \<longrightarrow>
      (\<exists>k. caps = map (\<lambda>i. 2 ^ i) [0..<Suc k] \<and> Capacity v1 = 2 ^ k \<and>
           Size v1 = length xs \<and> length xs \<le> 2 ^ k \<and> (\<forall>j<k. 2 ^ j < length xs)))"
proof (intro conjI impI)
  assume "size_v v = Capacity v" "PushBack T e v x = Returns u (e', v')"
  with PushBack_Returns_capacity [of T e v x u e' v']
  show "Capacity v' = max 1 (Capacity v * 2)" "buffer (data v') = Suc (next_block e)" by auto
next
  assume "size_v v = Capacity v" "PushBack_rv T e v x = Returns u (e', v')"
  with PushBack_rv_Returns_capacity [of T e v x u e' v']
  show "Capacity v' = max 1 (Capacity v * 2)" "buffer (data v') = Suc (next_block e)" by auto
next
  assume "size_v v = Capacity v" "EmplaceBack T e v a = Returns it (e', v')"
  with EmplaceBack_Returns_capacity [of T e v a it e' v']
  show "Capacity v' = max 1 (Capacity v * 2)" "buffer (data v') = Suc (next_block e)" by auto
next
  assume h: "size_v v = Capacity v \<and> well_formed v \<and> True \<notin> set (faults e)"
  then have full: "size_v v = Capacity v" and wf: "well_formed v" and nf: "True \<notin> set (faults e)"
    by simp_all
  from PushBack_no_failure [OF wf nf, of T x] obtain e2 v2 where
    r: "PushBack T e v x = Returns () (e2, v2)" and
    p: "well_formed v2" "elements v2 = elements v @ [Some x]" by blast
  from PushBack_Returns_capacity [OF r] full r p
  show "\<exists>e2 v2. PushBack T e v x = Returns () (e2, v2) \<and>
         Capacity v2 = max 1 (Capacity v * 2) \<and> buffer (data v2) = Suc (next_block e) \<and>
         elements v2 = elements v @ [Some x] \<and> well_formed v2"
    by auto
next
  assume h: "size_v v = Capacity v \<and> well_formed v \<and> True \<notin> set (faults e)"
  then have full: "size_v v = Capacity v" and wf: "well_formed v" and nf: "True \<notin> set (faults e)"
    by simp_all
  from PushBack_rv_no_failure [OF wf nf, of T x] obtain e2 v2 where
    r: "PushBack_rv T e v x = Returns () (e2, v2)" and
    p: "well_formed v2" "elements v2 = elements v @ [Some x]" by blast
  from PushBack_rv_Returns_capacity [OF r] full r p
  show "\<exists>e2 v2. PushBack_rv T e v x = Returns () (e2, v2) \<and>
         Capacity v2 = max 1 (Capacity v * 2) \<and> buffer (data v2) = Suc (next_block e) \<and>
         elements v2 = elements v @ [Some x] \<and> well_formed v2"
    by auto
next
  assume h: "size_v v = Capacity v \<and> well_formed v \<and> True \<notin> set (faults e)"
  then have full: "size_v v = Capacity v" and wf: "well_formed v" and nf: "True \<notin> set (faults e)"
    by simp_all
  from EmplaceBack_no_failure [OF wf nf, of T a] obtain it2 e2 v2 where
    r: "EmplaceBack T e v a = Returns it2 (e2, v2)" and
    p: "well_formed v2" "elements v2 = elements v @ [Some (value_of a)]" by blast
  from EmplaceBack_Returns_capacity [OF r] full r p
  show "\<exists>it2 e2 v2. EmplaceBack T e v a = Returns it2 (e2, v2) \<and>
         Capacity v2 = max 1 (Capacity v * 2) \<and> buffer (data v2) = Suc (next_block e) \<and>
         elements v2 = elements v @ [Some (value_of a)] \<and> well_formed v2"
    by auto
next
  assume "xs \<noteq> [] \<and> True \<notin> set (faults e)"
  then have nf: "True \<notin> set (faults e)" by simp
  have w: "well_formed (Vector_default :: 'a vector)"
    by (simp add: well_formed_def Vector_default_def RawMemory_default_def)
  from PushBack_seq_no_failure [OF w nf, of T xs]
  show "\<exists>caps e1 v1. PushBack_seq T e Vector_default xs = Returns caps (e1, v1)" by blast
next
  assume "xs \<noteq> [] \<and> PushBack_seq T e Vector_default xs = Returns caps (e1, v1)"
  then have "PushBack_seq T e Vector_default xs = Returns caps (e1, v1)" "xs \<noteq> []" by simp_all
  then show "\<exists>k. caps = map (\<lambda>i. 2 ^ i) [0..<Suc k] \<and> Capacity v1 = 2 ^ k \<and>
           Size v1 = length xs \<and> length xs \<le> 2 ^ k \<and> (\<forall>j<k. 2 ^ j < length xs)"
    by (rule PushBack_seq_from_empty)
qed

theorem PushBack_capacity_doubles_witness:
  "PushBack_seq int_type env0 Vector_default [1, 2, 3, 4, 5] =
     Returns [1, 2, 4, 8] (env0\<lparr>next_block := 4, n_copy := 5, n_move := 7, n_destroy := 7\<rparr>,
                           vec_of 4 8 [1, 2, 3, 4, 5]) \<and>
   (\<exists>k. [1, 2, 4, 8::nat] = map (\<lambda>i. 2 ^ i) [0..<Suc k] \<and>
        Capacity (vec_of 4 8 [1, 2, 3, 4, 5::int]) = 2 ^ k \<and>
        Size (vec_of 4 8 [1, 2, 3, 4, 5::int]) = length [1, 2, 3, 4, 5::int] \<and>
        length [1, 2, 3, 4, 5::int] \<le> 2 ^ k \<and> (\<forall>j<k. 2 ^ j < length [1, 2, 3, 4, 5::int])) \<and>
   PushBack int_type env0 (vec_of 7 2 [1, 2]) 3 =
     Returns () (env0\<lparr>next_block := 1, n_copy := 1, n_move := 2, n_destroy := 2\<rparr>,
                 vec_of 1 4 [1, 2, 3]) \<and>
   PushBack_rv int_type env0 (vec_of 7 2 [1, 2]) 3 =
     Returns () (env0\<lparr>next_block := 1, n_move := 3, n_destroy := 2\<rparr>, vec_of 1 4 [1, 2, 3]) \<and>
   EmplaceBack int_type env0 (vec_of 7 2 [1, 2]) (Args 3) =
     Returns (1, 2) (env0\<lparr>next_block := 1, n_construct := 1, n_move := 2, n_destroy := 2\<rparr>,
                     vec_of 1 4 [1, 2, 3]) \<and>
   Capacity (vec_of 1 4 [1, 2, 3::int]) = max 1 (Capacity (vec_of 7 2 [1, 2::int]) * 2) \<and>
   buffer (data (vec_of 1 4 [1, 2, 3::int])) = Suc (next_block env0) \<and>
   well_formed (vec_of 7 2 [1, 2::int]) \<and> True \<notin> set (faults env0) \<and>
   (\<exists>e2 v2. PushBack_rv int_type env0 (vec_of 7 2 [1, 2]) 3 = Returns () (e2, v2) \<and>
      Capacity v2 = max 1 (Capacity (vec_of 7 2 [1, 2::int]) * 2) \<and>
      buffer (data v2) = Suc (next_block env0) \<and>
      elements v2 = elements (vec_of 7 2 [1, 2::int]) @ [Some 3] \<and> well_formed v2) \<and>
   (\<exists>it2 e2 v2. EmplaceBack int_type env0 (vec_of 7 2 [1, 2]) (Args 3) = Returns it2 (e2, v2) \<and>
      Capacity v2 = max 1 (Capacity (vec_of 7 2 [1, 2::int]) * 2) \<and>
      buffer (data v2) = Suc (next_block env0) \<and>
      elements v2 = elements (vec_of 7 2 [1, 2::int]) @ [Some (value_of (Args 3))] \<and>
      well_formed v2)"
proof -
  have s: "PushBack_seq int_type env0 Vector_default [1, 2, 3, 4, 5] =
     Returns [1, 2, 4, 8] (env0\<lparr>next_block := 4, n_copy := 5, n_move := 7, n_destroy := 7\<rparr>,
                           vec_of 4 8 [1, 2, 3, 4, 5])"
    by code_simp
  have p: "PushBack int_type env0 (vec_of 7 2 [1, 2]) 3 =
     Returns () (env0\<lparr>next_block := 1, n_copy := 1, n_move := 2, n_destroy := 2\<rparr>,
                 vec_of 1 4 [1, 2, 3])"
    by code_simp
  have pr: "PushBack_rv int_type env0 (vec_of 7 2 [1, 2]) 3 =
     Returns () (env0\<lparr>next_block := 1, n_move := 3, n_destroy := 2\<rparr>, vec_of 1 4 [1, 2, 3])"
    by code_simp
  have eb: "EmplaceBack int_type env0 (vec_of 7 2 [1, 2]) (Args 3) =
     Returns (1, 2) (env0\<lparr>next_block := 1, n_construct := 1, n_move := 2, n_destroy := 2\<rparr>,
                     vec_of 1 4 [1, 2, 3])"
    by code_simp
  have f: "size_v (vec_of 7 2 [1, 2::int]) = Capacity (vec_of 7 2 [1, 2::int])"
    by (simp add: vec_of_def Capacity_def)
  have w: "well_formed (vec_of 7 2 [1, 2::int])"
    by (simp add: well_formed_def vec_of_def)
  have nf: "True \<notin> set (faults env0)" by (simp add: env0_def)
  have n: "[1, 2, 3, 4, 5::int] \<noteq> []" by simp
  note t = PushBack_capacity_doubles [where T = int_type and e = env0
      and v = "vec_of 7 2 [1, 2]" and x = 3 and u = "()" and a = "Args 3"
      and e' = "env0\<lparr>next_block := 1, n_copy := 1, n_move := 2, n_destroy := 2\<rparr>"
      and v' = "vec_of 1 4 [1, 2, 3]" and xs = "[1, 2, 3, 4, 5]" and caps = "[1, 2, 4, 8]"
      and ?e1.0 = "env0\<lparr>next_block := 4, n_copy := 5, n_move := 7, n_destroy := 7\<rparr>"
      and ?v1.0 = "vec_of 4 8 [1, 2, 3, 4, 5]"]
  from t f p have c: "Capacity (vec_of 1 4 [1, 2, 3::int]) = max 1 (Capacity (vec_of 7 2 [1, 2::int]) * 2)"
    and b: "buffer (data (vec_of 1 4 [1, 2, 3::int])) = Suc (next_block env0)"
    by blast+
  from t n s have k: "\<exists>k. [1, 2, 4, 8::nat] = map (\<lambda>i. 2 ^ i) [0..<Suc k] \<and>
        Capacity (vec_of 4 8 [1, 2, 3, 4, 5::int]) = 2 ^ k \<and>
        Size (vec_of 4 8 [1, 2, 3, 4, 5::int]) = length [1, 2, 3, 4, 5::int] \<and>
        length [1, 2, 3, 4, 5::int] \<le> 2 ^ k \<and> (\<forall>j<k. 2 ^ j < length [1, 2, 3, 4, 5::int])"
    by blast
  from t f w nf have tr: "\<exists>e2 v2. PushBack_rv int_type env0 (vec_of 7 2 [1, 2]) 3 = Returns () (e2, v2) \<and>
      Capacity v2 = max 1 (Capacity (vec_of 7 2 [1, 2::int]) * 2) \<and>
      buffer (data v2) = Suc (next_block env0) \<and>
      elements v2 = elements (vec_of 7 2 [1, 2::int]) @ [Some 3] \<and> well_formed v2"
    by blast
  from t f w nf have te: "\<exists>it2 e2 v2. EmplaceBack int_type env0 (vec_of 7 2 [1, 2]) (Args 3) =
        Returns it2 (e2, v2) \<and>
      Capacity v2 = max 1 (Capacity (vec_of 7 2 [1, 2::int]) * 2) \<and>
      buffer (data v2) = Suc (next_block env0) \<and>
      elements v2 = elements (vec_of 7 2 [1, 2::int]) @ [Some (value_of (Args 3))] \<and>
      well_formed v2"
    by blast
  from s k p pr eb c b w nf tr te show ?thesis by (intro conjI)
qed

end
